theory Spec2Isabelle
  imports Complex_Main "HOL-Library.Char_ord" "HOL-Library.List_Lexorder" "HOL-Library.Sublist"
begin

section \<open>Data model (storage.js)\<close>

text \<open>
  The records of the four IndexedDB object stores. JavaScript numbers that count things
  are \<open>nat\<close>, sequence numbers and millisecond clocks are \<open>int\<close>, the average image
  size (a quotient) is \<open>rat\<close>; \<open>null\<close> and \<open>undefined\<close> are \<open>None\<close>. A session's status is
  one of the six strings the code ever writes. The GPS and accelerometer readings of a
  capture only feed the CSV text and the coverage route; of them the model keeps the test
  \<open>c.gps?.lat && c.gps?.lng\<close> as the flag \<open>gpsFix\<close>.
\<close>

datatype status = Recording | Paused | Stopped | Publishing | Published | PartiallyPublished

record gap =
  after :: int
  before :: int
  missing :: int

record recoveryInfo =
  potentialMissedFrames :: int
  ri_lastCaptureTime :: "string option"
  gaps :: "gap list"

record settings =
  captureInterval :: nat
  imageQuality :: rat
  imageMaxWidth :: nat

record session =
  sid :: string
  name :: string
  createdAt :: string
  status :: status
  captureCount :: nat
  totalBytes :: nat
  avgImageSize :: rat
  duration :: int
  startTime :: int
  lastCaptureTime :: "string option"
  settings :: settings
  recoveryInfo :: "recoveryInfo option"

text \<open>
  A Blob has a size and, when it can still be read, its bytes (written here as their
  base64 text); an ArrayBuffer payload is its base64 text, empty when \<open>byteLength\<close> is 0.
\<close>

record blob =
  blob_size :: nat
  blob_base64 :: "string option"

record capture =
  sessionId :: string
  sequenceNum :: int
  timestamp :: string
  gpsFix :: bool
  imageData :: "string option"
  imageBlob :: "blob option"
  imageSizeBytes :: "nat option"
  published :: bool
  publishedUrl :: "string option"

record publish_state =
  ps_sessionId :: string
  publishStarted :: int
  totalToUpload :: nat
  ps_completed :: nat
  ps_failed :: nat
  inProgress :: bool
  completedAt :: "int option"

text \<open>
  The database: each object store is the list of its records in key order. The captures
  store has \<open>autoIncrement\<close> keys, so a stored capture is the pair of its key (the
  injected \<open>id\<close>) and the record; \<open>keyGen\<close> is the store's key generator.
\<close>

record db =
  sessions :: "session list"
  captures :: "(nat \<times> capture) list"
  publishState :: "publish_state list"
  keyGen :: nat

datatype error = Error string | DOMException string | TypeError string

datatype txn = Commit | Abort

text \<open>
  What becomes of the transaction of \<open>saveCapture\<close>, whose promise follows the \<open>add\<close>
  request and not the transaction: the transaction commits; or it is aborted before the
  \<open>add\<close> request has been carried out, so that the request fails; or it aborts after the
  \<open>add\<close> request has succeeded (the \<open>put\<close> of the session fails, the commit fails, the
  quota is exceeded).
\<close>

datatype capture_txn = Committed | AbortedBeforeAdd | AbortedAfterAdd

section \<open>Object stores\<close>

fun store_put :: "('v \<Rightarrow> 'k::linorder) \<Rightarrow> 'v \<Rightarrow> 'v list \<Rightarrow> 'v list" where
  "store_put key v [] = [v]"
| "store_put key v (x # xs) =
     (if key x = key v then v # xs
      else if key v < key x then v # x # xs
      else x # store_put key v xs)"

definition store_get :: "('v \<Rightarrow> 'k) \<Rightarrow> 'k \<Rightarrow> 'v list \<Rightarrow> 'v option" where
  "store_get key k xs = find (\<lambda>x. key x = k) xs"

definition store_delete :: "('v \<Rightarrow> 'k) \<Rightarrow> 'k \<Rightarrow> 'v list \<Rightarrow> 'v list" where
  "store_delete key k xs = filter (\<lambda>x. key x \<noteq> k) xs"

section \<open>Decimal text of numbers\<close>

fun digits :: "nat \<Rightarrow> string" where
  "digits n = (if n < 10 then [''0123456789'' ! n]
               else digits (n div 10) @ [''0123456789'' ! (n mod 10)])"

declare digits.simps [simp del]

definition toString :: "int \<Rightarrow> string" where
  "toString i = (if i < 0 then CHR ''-'' # digits (nat (- i)) else digits (nat i))"

definition padStart :: "nat \<Rightarrow> char \<Rightarrow> string \<Rightarrow> string" where
  "padStart n c s = replicate (n - length s) c @ s"

section \<open>Session operations (storage.js)\<close>

text \<open>
  \<open>createSession\<close>: the clock (\<open>Date.now()\<close>), its ISO text and the locale's date text
  are inputs. \<open>store.add\<close> fails when the key is already present.
\<close>

definition createSession ::
  "string option \<Rightarrow> nat option \<Rightarrow> rat option \<Rightarrow> nat option \<Rightarrow> int \<Rightarrow> string \<Rightarrow> string \<Rightarrow> db
     \<Rightarrow> error + (session \<times> db)" where
  "createSession nm interval quality width now isoText localeDate d =
     (let s = \<lparr> sid = ''session_'' @ toString now,
                name = (case nm of None \<Rightarrow> ''Session '' @ localeDate
                        | Some n \<Rightarrow> if n = [] then ''Session '' @ localeDate else n),
                createdAt = isoText,
                status = Recording,
                captureCount = 0,
                totalBytes = 0,
                avgImageSize = 0,
                duration = 0,
                startTime = now,
                lastCaptureTime = None,
                settings = \<lparr> captureInterval = (case interval of None \<Rightarrow> 2000
                                                 | Some i \<Rightarrow> if i = 0 then 2000 else i),
                             imageQuality = (case quality of None \<Rightarrow> 7 / 10
                                              | Some q \<Rightarrow> if q = 0 then 7 / 10 else q),
                             imageMaxWidth = (case width of None \<Rightarrow> 1280
                                               | Some w \<Rightarrow> if w = 0 then 1280 else w) \<rparr>,
                recoveryInfo = None \<rparr>
      in if store_get sid (sid s) (sessions d) \<noteq> None
         then Inl (DOMException ''ConstraintError'')
         else Inr (s, d\<lparr>sessions := store_put sid s (sessions d)\<rparr>))"

definition getSession :: "string \<Rightarrow> db \<Rightarrow> session option" where
  "getSession k d = store_get sid k (sessions d)"

definition updateSession :: "session \<Rightarrow> db \<Rightarrow> db" where
  "updateSession s d = d\<lparr>sessions := store_put sid s (sessions d)\<rparr>"

text \<open>
  \<open>getSessionsByStatus\<close>: one \<open>index.getAll\<close> per status, the results pushed in the
  order of the requests.
\<close>

definition getSessionsByStatus :: "status list \<Rightarrow> db \<Rightarrow> session list" where
  "getSessionsByStatus statuses d =
     concat (map (\<lambda>s. filter (\<lambda>x. status x = s) (sessions d)) statuses)"

text \<open>
  \<open>deleteSession\<close>: one read-write transaction over the three stores. The transaction
  either completes (the promise resolves) or aborts (\<open>transaction.onerror\<close>, the promise
  rejects and nothing is changed); which of the two is the storage engine's.
\<close>

definition deleteSession :: "string \<Rightarrow> txn \<Rightarrow> db \<Rightarrow> error + db" where
  "deleteSession k t d =
     (case t of
        Abort \<Rightarrow> Inl (DOMException ''AbortError'')
      | Commit \<Rightarrow>
          Inr (d\<lparr> sessions := store_delete sid k (sessions d),
                  captures := filter (\<lambda>kc. sessionId (snd kc) \<noteq> k) (captures d),
                  publishState := store_delete ps_sessionId k (publishState d) \<rparr>))"

section \<open>Capture operations (storage.js)\<close>

text \<open>
  \<open>saveCapture\<close>: one read-write transaction over captures and sessions. The promise is
  settled by the \<open>add\<close> request alone (\<open>captureRequest.onsuccess\<close> resolves with the
  generated key, \<open>captureRequest.onerror\<close> rejects); nothing watches the transaction.
  \<open>add\<close> fails on the unique index \<open>[sessionId, sequenceNum]\<close>, or when the transaction
  is aborted before the request is carried out; an unhandled request error aborts the
  transaction, so a rejected call leaves the database as it was. When the request
  succeeds, the capture is stored under the next generated key and, when the session
  exists, its statistics are replaced in the same transaction. If that transaction aborts
  afterwards, the call has resolved with the key all the same, and everything the
  transaction did is rolled back, the key generator included. \<open>now\<close> is \<open>Date.now()\<close>.
\<close>

definition bytesOf :: "capture \<Rightarrow> nat" where
  "bytesOf c = (case imageSizeBytes c of None \<Rightarrow> 0 | Some n \<Rightarrow> n)"

definition saveCapture :: "capture \<Rightarrow> int \<Rightarrow> capture_txn \<Rightarrow> db \<Rightarrow> (error + nat) \<times> db" where
  "saveCapture c now t d =
     (case t of
        AbortedBeforeAdd \<Rightarrow> (Inl (DOMException ''AbortError''), d)
      | AbortedAfterAdd \<Rightarrow>
          if \<exists>kc \<in> set (captures d).
               sessionId (snd kc) = sessionId c \<and> sequenceNum (snd kc) = sequenceNum c
          then (Inl (DOMException ''ConstraintError''), d)
          else (Inr (keyGen d), d)
      | Committed \<Rightarrow>
          if \<exists>kc \<in> set (captures d).
               sessionId (snd kc) = sessionId c \<and> sequenceNum (snd kc) = sequenceNum c
          then (Inl (DOMException ''ConstraintError''), d)
          else
            let k = keyGen d;
                d1 = d\<lparr>captures := captures d @ [(k, c)], keyGen := k + 1\<rparr>
            in (case store_get sid (sessionId c) (sessions d1) of
                  None \<Rightarrow> (Inr k, d1)
                | Some s \<Rightarrow>
                    let s1 = s\<lparr>captureCount := captureCount s + 1\<rparr>;
                        s2 = s1\<lparr>totalBytes := totalBytes s1 + bytesOf c\<rparr>;
                        s3 = s2\<lparr>avgImageSize := of_nat (totalBytes s2) / of_nat (captureCount s2)\<rparr>;
                        s4 = s3\<lparr>lastCaptureTime := Some (timestamp c)\<rparr>;
                        s5 = s4\<lparr>duration := (now - startTime s4) div 1000\<rparr>
                    in (Inr k, d1\<lparr>sessions := store_put sid s5 (sessions d1)\<rparr>)))"

text \<open>Both listings sort by \<open>a.sequenceNum - b.sequenceNum\<close>; the sort is stable.\<close>

definition getSessionCaptures :: "string \<Rightarrow> db \<Rightarrow> (nat \<times> capture) list" where
  "getSessionCaptures k d =
     sort_key (\<lambda>kc. sequenceNum (snd kc)) (filter (\<lambda>kc. sessionId (snd kc) = k) (captures d))"

definition getUnpublishedCaptures :: "string \<Rightarrow> db \<Rightarrow> (nat \<times> capture) list" where
  "getUnpublishedCaptures k d =
     sort_key (\<lambda>kc. sequenceNum (snd kc))
       (filter (\<lambda>kc. \<not> published (snd kc)) (filter (\<lambda>kc. sessionId (snd kc) = k) (captures d)))"

definition markCapturePublished :: "nat \<Rightarrow> string option \<Rightarrow> db \<Rightarrow> error + ((nat \<times> capture) \<times> db)" where
  "markCapturePublished captureId url d =
     (case store_get fst captureId (captures d) of
        None \<Rightarrow> Inl (Error ''Capture not found'')
      | Some kc \<Rightarrow>
          let kc' = (fst kc, (snd kc)\<lparr>published := True, publishedUrl := url\<rparr>)
          in Inr (kc', d\<lparr>captures := store_put fst kc' (captures d)\<rparr>))"

fun findSequenceGaps :: "(nat \<times> capture) list \<Rightarrow> gap list" where
  "findSequenceGaps (a # b # cs) =
     (let expected = sequenceNum (snd a) + 1;
          actual = sequenceNum (snd b)
      in (if actual \<noteq> expected
          then [\<lparr> after = sequenceNum (snd a), before = sequenceNum (snd b),
                  missing = actual - expected \<rparr>]
          else []) @ findSequenceGaps (b # cs))"
| "findSequenceGaps cs = []"

section \<open>Publish state operations (storage.js)\<close>

definition savePublishState :: "publish_state \<Rightarrow> db \<Rightarrow> db" where
  "savePublishState p d = d\<lparr>publishState := store_put ps_sessionId p (publishState d)\<rparr>"

definition getPublishState :: "string \<Rightarrow> db \<Rightarrow> publish_state option" where
  "getPublishState k d = store_get ps_sessionId k (publishState d)"

section \<open>Recovery (storage.js)\<close>

text \<open>
  \<open>checkForRecovery\<close>: the loop works on the session objects returned by the first
  query; each round reads the captures, attaches \<open>recoveryInfo\<close> when gaps were found,
  sets the status and writes the session back.
\<close>

definition recoverSession :: "session \<Rightarrow> (nat \<times> capture) list \<Rightarrow> session" where
  "recoverSession s cs =
     (let gs = findSequenceGaps cs;
          s1 = (if length gs > 0
                then s\<lparr>recoveryInfo := Some
                        \<lparr> potentialMissedFrames = foldl (\<lambda>sum g. sum + missing g) 0 gs,
                          ri_lastCaptureTime =
                            (if length cs > 0 then Some (timestamp (snd (last cs))) else None),
                          gaps = gs \<rparr>\<rparr>
                else s)
      in s1\<lparr>status := Paused\<rparr>)"

fun recoverLoop :: "session list \<Rightarrow> db \<Rightarrow> session list \<times> db" where
  "recoverLoop [] d = ([], d)"
| "recoverLoop (s # ss) d =
     (let s' = recoverSession s (getSessionCaptures (sid s) d);
          d1 = updateSession s' d;
          (rest, d2) = recoverLoop ss d1
      in (s' # rest, d2))"

definition checkForRecovery :: "db \<Rightarrow> session list \<times> db" where
  "checkForRecovery d = recoverLoop (getSessionsByStatus [Recording, Publishing] d) d"

section \<open>The remote repository (the GitHub API as publisher.js uses it)\<close>

text \<open>
  The remote side is one repository: its files (path to base64 content) and what the
  three validation endpoints report about the token. Each \<open>fetch\<close> takes the next entry
  of a fault schedule: without a fault the server answers from its state; with
  \<open>HttpError\<close> it answers with that error status and message and does nothing (a status
  given in 200..299 is answered as 500); with \<open>NetworkError\<close> the \<open>fetch\<close> promise
  rejects. Every request is logged, as are the timer waits (\<open>delay\<close>) and the per-attempt
  failure lines that \<open>uploadWithRetry\<close> writes to the debug log. A file's content identity
  (\<open>sha\<close>) stands for git's hash of the content.
\<close>

record config =
  token :: string
  repo :: string
  branch :: "string option"
  contributor :: "string option"

record account =
  tokenValid :: bool
  login :: string
  repoFound :: bool
  canPush :: bool
  rateRemaining :: nat
  rateLimit :: nat
  rateResetText :: string

datatype fault = NoFault | HttpError nat string | NetworkError string

datatype request =
    GetUser
  | GetRepo
  | GetRateLimit
  | GetContents string
  | PutContents string string "string option" string
  | GetRawIndex

datatype body =
    ErrorBody string
  | UserBody string
  | RepoBody bool
  | RateBody nat nat string
  | ContentBody string string
  | RawBody string

datatype response = Response nat body | Rejected string

datatype debug_entry = AttemptFailed nat string

record world =
  files :: "string \<rightharpoonup> string"
  account :: account
  faults :: "fault list"
  requests :: "request list"
  delays :: "nat list"
  debug :: "debug_entry list"

definition ok :: "nat \<Rightarrow> bool" where
  "ok st = (200 \<le> st \<and> st \<le> 299)"

definition blobSha :: "string \<Rightarrow> string" where
  "blobSha content = ''sha:'' @ content"

definition downloadUrlOf :: "string \<Rightarrow> string" where
  "downloadUrlOf path = ''https://raw.githubusercontent.com/'' @ path"

definition serve :: "request \<Rightarrow> world \<Rightarrow> response \<times> world" where
  "serve rq w =
     (case rq of
        GetUser \<Rightarrow>
          (if tokenValid (account w) then (Response 200 (UserBody (login (account w))), w)
           else (Response 401 (ErrorBody ''Bad credentials''), w))
      | GetRepo \<Rightarrow>
          (if \<not> tokenValid (account w) then (Response 401 (ErrorBody ''Bad credentials''), w)
           else if \<not> repoFound (account w) then (Response 404 (ErrorBody ''Not Found''), w)
           else (Response 200 (RepoBody (canPush (account w))), w))
      | GetRateLimit \<Rightarrow>
          (Response 200 (RateBody (rateRemaining (account w)) (rateLimit (account w))
                           (rateResetText (account w))), w)
      | GetContents path \<Rightarrow>
          (case files w path of
             None \<Rightarrow> (Response 404 (ErrorBody ''Not Found''), w)
           | Some content \<Rightarrow> (Response 200 (ContentBody (blobSha content) (downloadUrlOf path)), w))
      | GetRawIndex \<Rightarrow>
          (case files w ''coverage-index.geojson'' of
             None \<Rightarrow> (Response 404 (ErrorBody ''Not Found''), w)
           | Some content \<Rightarrow> (Response 200 (RawBody content), w))
      | PutContents path content sha message \<Rightarrow>
          (if \<not> tokenValid (account w) then (Response 401 (ErrorBody ''Bad credentials''), w)
           else if \<not> repoFound (account w) \<or> \<not> canPush (account w)
             then (Response 404 (ErrorBody ''Not Found''), w)
           else
             (case files w path of
                None \<Rightarrow>
                  (case sha of
                     None \<Rightarrow> (Response 201 (ContentBody (blobSha content) (downloadUrlOf path)),
                               w\<lparr>files := (files w)(path \<mapsto> content)\<rparr>)
                   | Some s \<Rightarrow> (Response 404 (ErrorBody ''Not Found''), w))
              | Some old \<Rightarrow>
                  (case sha of
                     None \<Rightarrow> (Response 422 (ErrorBody ''Invalid request. sha was not supplied.''), w)
                   | Some s \<Rightarrow>
                       if s = blobSha old
                       then (Response 200 (ContentBody (blobSha content) (downloadUrlOf path)),
                             w\<lparr>files := (files w)(path \<mapsto> content)\<rparr>)
                       else (Response 409 (ErrorBody (path @ '' does not match '' @ s)), w)))))"

definition fetch :: "request \<Rightarrow> world \<Rightarrow> response \<times> world" where
  "fetch rq w =
     (let w1 = w\<lparr>faults := tl (faults w), requests := requests w @ [rq]\<rparr>
      in case (case faults w of [] \<Rightarrow> NoFault | f # fs \<Rightarrow> f) of
           NoFault \<Rightarrow> serve rq w1
         | HttpError st m \<Rightarrow> (Response (if ok st then 500 else st) (ErrorBody m), w1)
         | NetworkError m \<Rightarrow> (Rejected m, w1))"

definition delay :: "nat \<Rightarrow> world \<Rightarrow> world" where
  "delay ms w = w\<lparr>delays := delays w @ [ms]\<rparr>"

section \<open>Strings (publisher.js)\<close>

fun str_includes :: "string \<Rightarrow> string \<Rightarrow> bool" where
  "str_includes [] sub = (sub = [])"
| "str_includes (c # cs) sub = (prefix sub (c # cs) \<or> str_includes cs sub)"

fun joinWith :: "string \<Rightarrow> string list \<Rightarrow> string" where
  "joinWith sep [] = []"
| "joinWith sep [x] = x"
| "joinWith sep (x # y # ys) = x @ sep @ joinWith sep (y # ys)"

text \<open>\<open>a || b\<close> on strings: the empty string is falsy.\<close>

definition orElse :: "string \<Rightarrow> string \<Rightarrow> string" where
  "orElse a b = (if a = [] then b else a)"

definition messageOf :: "error \<Rightarrow> string" where
  "messageOf e = (case e of Error m \<Rightarrow> orElse m ''Error''
                  | DOMException m \<Rightarrow> orElse m ''Error''
                  | TypeError m \<Rightarrow> orElse m ''TypeError'')"

definition errorMessage :: "body \<Rightarrow> string" where
  "errorMessage b = (case b of ErrorBody m \<Rightarrow> m | _ \<Rightarrow> [])"

section \<open>GitHub API helpers (publisher.js)\<close>

text \<open>
  \<open>validateGitHubAccess\<close> returns \<open>valid\<close> and \<open>errors\<close>. Each check that fails returns
  at once with its one reason; only the quota check pushes its reason and goes on to the
  final return. A rejected \<open>fetch\<close>, or a rate-limit answer without the expected fields,
  lands in the \<open>catch\<close>.
\<close>

definition validateGitHubAccess :: "config \<Rightarrow> world \<Rightarrow> (bool \<times> string list) \<times> world" where
  "validateGitHubAccess cfg w =
     (case fetch GetUser w of
        (Rejected m, w1) \<Rightarrow> ((False, [''Network error: '' @ m]), w1)
      | (Response st b, w1) \<Rightarrow>
          if st = 401 then ((False, [''GitHub token is invalid or expired'']), w1)
          else if \<not> ok st then ((False, [''GitHub API error: '' @ digits st]), w1)
          else
            (case fetch GetRepo w1 of
               (Rejected m, w2) \<Rightarrow> ((False, [''Network error: '' @ m]), w2)
             | (Response st2 b2, w2) \<Rightarrow>
                 if st2 = 404 then ((False, [''Repository not found or no access'']), w2)
                 else if \<not> ok st2 then ((False, [''Repository access error: '' @ digits st2]), w2)
                 else if \<not> (case b2 of RepoBody push \<Rightarrow> push | _ \<Rightarrow> False)
                   then ((False, [''Token does not have write access to repository'']), w2)
                 else
                   (case fetch GetRateLimit w2 of
                      (Rejected m, w3) \<Rightarrow> ((False, [''Network error: '' @ m]), w3)
                    | (Response st3 b3, w3) \<Rightarrow>
                        (case b3 of
                           RateBody remaining limit resetText \<Rightarrow>
                             (let errors =
                                (if remaining < 100
                                 then [''Low API quota: '' @ digits remaining
                                        @ '' remaining. Resets at '' @ resetText]
                                 else [])
                              in ((length errors = 0, errors), w3))
                         | _ \<Rightarrow>
                             ((False, [''Network error: Cannot read properties of undefined'']),
                              w3)))))"

record exists_result =
  ex_exists :: bool
  ex_sha :: "string option"
  ex_downloadUrl :: "string option"
  ex_error :: "string option"

definition fileExists :: "config \<Rightarrow> string \<Rightarrow> world \<Rightarrow> exists_result \<times> world" where
  "fileExists cfg path w =
     (case fetch (GetContents path) w of
        (Rejected m, w1) \<Rightarrow>
          (\<lparr> ex_exists = False, ex_sha = None, ex_downloadUrl = None, ex_error = Some m \<rparr>, w1)
      | (Response st b, w1) \<Rightarrow>
          if st = 200
          then (case b of
                  ContentBody sha url \<Rightarrow>
                    (\<lparr> ex_exists = True, ex_sha = Some sha, ex_downloadUrl = Some url,
                       ex_error = None \<rparr>, w1)
                | _ \<Rightarrow>
                    (\<lparr> ex_exists = True, ex_sha = None, ex_downloadUrl = None,
                       ex_error = None \<rparr>, w1))
          else (\<lparr> ex_exists = False, ex_sha = None, ex_downloadUrl = None, ex_error = None \<rparr>, w1))"

record upload_result =
  up_url :: "string option"
  up_sha :: "string option"
  up_path :: string

definition contentOf :: "string \<Rightarrow> body \<Rightarrow> error + upload_result" where
  "contentOf path b =
     (case b of
        ContentBody sha url \<Rightarrow> Inr \<lparr> up_url = Some url, up_sha = Some sha, up_path = path \<rparr>
      | _ \<Rightarrow> Inl (TypeError ''Cannot read properties of undefined''))"

text \<open>
  \<open>uploadFile\<close>: one \<open>PUT\<close>; on a 422 answer whose message mentions \<open>sha\<close> the file is
  probed and, when it exists, the \<open>PUT\<close> is repeated once with the identity found.
\<close>

definition uploadFile ::
  "config \<Rightarrow> string \<Rightarrow> string \<Rightarrow> string \<Rightarrow> string option \<Rightarrow> world \<Rightarrow> (error + upload_result) \<times> world" where
  "uploadFile cfg path content message existingSha w =
     (case fetch (PutContents path content
                    (case existingSha of None \<Rightarrow> None | Some s \<Rightarrow> if s = [] then None else Some s)
                    message) w of
        (Rejected m, w1) \<Rightarrow> (Inl (TypeError m), w1)
      | (Response st b, w1) \<Rightarrow>
          if ok st then (contentOf path b, w1)
          else if st = 422 \<and> str_includes (errorMessage b) ''sha''
          then
            (case fileExists cfg path w1 of
               (existing, w2) \<Rightarrow>
                 if ex_exists existing \<and> ex_sha existing \<noteq> None \<and> ex_sha existing \<noteq> Some []
                 then
                   (case fetch (PutContents path content (ex_sha existing) message) w2 of
                      (Rejected m, w3) \<Rightarrow> (Inl (TypeError m), w3)
                    | (Response st' b', w3) \<Rightarrow>
                        if ok st' then (contentOf path b', w3)
                        else (Inl (Error (orElse (errorMessage b')
                                            (''Upload retry failed: '' @ digits st'))), w3))
                 else (Inl (Error (orElse (errorMessage b) (''Upload failed: '' @ digits st))), w2))
          else (Inl (Error (orElse (errorMessage b) (''Upload failed: '' @ digits st))), w1))"

text \<open>
  \<open>uploadImage\<close>: the payload test comes first, then the existence probe, then the
  conversion and the write. \<open>config\<close> is \<open>null\<close> after a cancel; it is first used by
  \<open>fileExists\<close>.
\<close>

definition imagePath :: "string \<Rightarrow> int \<Rightarrow> string" where
  "imagePath k n = ''sessions/'' @ k @ ''/images/'' @ padStart 6 CHR ''0'' (toString n) @ ''.jpg''"

text \<open>
  The two payload tests of \<open>uploadImage\<close>. A stored \<open>imageBlob\<close> is a Blob, so
  \<open>instanceof Blob\<close> holds whenever the field is set, and \<open>hasImageBlob\<close> is also the
  test \<open>c.imageBlob && c.imageBlob.size > 0\<close> by which \<open>startPublish\<close> filters.
\<close>

definition hasImageData :: "capture \<Rightarrow> bool" where
  "hasImageData c = (imageData c \<noteq> None)"

definition hasImageBlob :: "capture \<Rightarrow> bool" where
  "hasImageBlob c = (case imageBlob c of None \<Rightarrow> False | Some b \<Rightarrow> blob_size b > 0)"

definition uploadImage ::
  "config option \<Rightarrow> capture \<Rightarrow> string \<Rightarrow> world \<Rightarrow> (error + (string option \<times> bool)) \<times> world" where
  "uploadImage cfgo c k w =
     (let path = imagePath k (sequenceNum c) in
      if \<not> hasImageData c \<and> \<not> hasImageBlob c
      then (Inl (Error (''Capture #'' @ toString (sequenceNum c) @ '' has no valid image data'')), w)
      else
        (case cfgo of
           None \<Rightarrow> (Inl (TypeError ''Cannot read properties of null''), w)
         | Some cfg \<Rightarrow>
             (case fileExists cfg path w of
                (existing, w1) \<Rightarrow>
                  if ex_exists existing then (Inr (ex_downloadUrl existing, True), w1)
                  else
                    (case (case imageData c of
                             Some bytes \<Rightarrow> Inr bytes
                           | None \<Rightarrow>
                               (case imageBlob c of
                                  None \<Rightarrow> Inr []
                                | Some b \<Rightarrow>
                                    (case blob_base64 b of
                                       Some bytes \<Rightarrow> Inr bytes
                                     | None \<Rightarrow>
                                         Inl (Error (''Image #'' @ toString (sequenceNum c)
                                                @ '' data is corrupted. This session was created with an older app version. Please delete it and create a new session.''))))) of
                       Inl e \<Rightarrow> (Inl e, w1)
                     | Inr base64 \<Rightarrow>
                         if base64 = []
                         then (Inl (Error (''Failed to convert image #''
                                 @ toString (sequenceNum c) @ '' to base64'')), w1)
                         else
                           (case uploadFile cfg path base64
                                   (''Upload image '' @ toString (sequenceNum c)) None w1 of
                              (Inl e, w2) \<Rightarrow> (Inl e, w2)
                            | (Inr result, w2) \<Rightarrow> (Inr (up_url result, False), w2))))))"

section \<open>Publisher state (publisher.js)\<close>

text \<open>
  \<open>publisherState\<close>. The three callbacks are modelled by whether one is registered and
  by the trace \<open>events\<close> of their invocations: \<open>onProgress\<close> with the counters (or
  \<open>null\<close>) and the status text, \<open>onComplete\<close> with \<open>{completed, failed, total}\<close>,
  \<open>onError\<close> with the error and the capture. The browser is taken to be online
  (\<open>navigator.onLine\<close>), so \<open>waitForOnline\<close> is never entered.
\<close>

datatype callback =
    Progress "(nat \<times> nat \<times> nat) option" "string option"
  | Complete nat nat nat
  | Failed error "(nat \<times> capture) option"

record publisher =
  isPublishing :: bool
  isPaused :: bool
  isProcessing :: bool
  currentSession :: "session option"
  config :: "config option"
  queue :: "(nat \<times> capture) list"
  completed :: nat
  failed :: nat
  total :: nat
  pub_startTime :: "int option"
  onProgress :: bool
  onComplete :: bool
  onError :: bool
  events :: "callback list"

definition initialPublisher :: publisher where
  "initialPublisher =
     \<lparr> isPublishing = False, isPaused = False, isProcessing = False, currentSession = None,
       config = None, queue = [], completed = 0, failed = 0, total = 0, pub_startTime = None,
       onProgress = False, onComplete = False, onError = False, events = [] \<rparr>"

text \<open>
  \<open>reportProgress\<close>: \<open>getPublishProgress\<close> is \<open>null\<close> when no job exists, and setting
  \<open>status\<close> on \<open>null\<close> throws.
\<close>

definition reportProgress :: "string option \<Rightarrow> publisher \<Rightarrow> error + publisher" where
  "reportProgress st_text st =
     (if onProgress st then
        (if isPublishing st
         then Inr (st\<lparr>events := events st
                      @ [Progress (Some (completed st, failed st, total st)) st_text]\<rparr>)
         else if st_text \<noteq> None \<and> st_text \<noteq> Some []
         then Inl (TypeError ''Cannot set properties of null'')
         else Inr (st\<lparr>events := events st @ [Progress None None]\<rparr>))
      else Inr st)"

section \<open>Publish queue management (publisher.js)\<close>

text \<open>
  \<open>startPublish\<close> up to its \<open>return\<close>. The call \<open>processQueue()\<close> before the
  \<open>return\<close> is not awaited; the drain it starts is \<open>processQueue\<close> below. \<open>now\<close> is
  \<open>Date.now()\<close>.
\<close>

definition startPublish ::
  "string \<Rightarrow> config \<Rightarrow> bool \<Rightarrow> bool \<Rightarrow> bool \<Rightarrow> int \<Rightarrow> publisher \<Rightarrow> world \<Rightarrow> db
     \<Rightarrow> (error + nat) \<times> publisher \<times> world \<times> db" where
  "startPublish k cfg cbProgress cbComplete cbError now st w d =
     (if isPublishing st \<or> isProcessing st then (Inl (Error ''Already publishing''), st, w, d)
      else
        (case validateGitHubAccess cfg w of
           ((valid, errors), w1) \<Rightarrow>
             if \<not> valid then (Inl (Error (joinWith [CHR 0x0A] errors)), st, w1, d)
             else
               (case getSession k d of
                  None \<Rightarrow> (Inl (Error ''Session not found''), st, w1, d)
                | Some session \<Rightarrow>
                    (let captures = getUnpublishedCaptures k d in
                     if length captures = 0
                     then (Inl (Error ''No captures to publish''), st, w1, d)
                     else
                       (let capturesWithBlobs = filter (\<lambda>kc. hasImageBlob (snd kc)) captures;
                            session' = session\<lparr>status := Publishing\<rparr>;
                            st1 = \<lparr> isPublishing = True, isPaused = False, isProcessing = False,
                                    currentSession = Some session', config = Some cfg,
                                    queue = capturesWithBlobs, completed = 0, failed = 0,
                                    total = length capturesWithBlobs, pub_startTime = Some now,
                                    onProgress = cbProgress, onComplete = cbComplete,
                                    onError = cbError, events = events st \<rparr>;
                            d1 = savePublishState
                                   \<lparr> ps_sessionId = k, publishStarted = now,
                                     totalToUpload = length capturesWithBlobs, ps_completed = 0,
                                     ps_failed = 0, inProgress = True, completedAt = None \<rparr> d;
                            d2 = updateSession session' d1
                        in (Inr (length capturesWithBlobs), st1, w1, d2))))))"

subsection \<open>Upload with retry\<close>

definition isRateLimited :: "string \<Rightarrow> bool" where
  "isRateLimited m =
     (str_includes m ''rate limit'' \<or> str_includes m ''403''
      \<or> str_includes m ''secondary rate limit'')"

definition tryUpload :: "(nat \<times> capture) \<Rightarrow> publisher \<Rightarrow> world \<Rightarrow> (error + (string option \<times> bool)) \<times> world" where
  "tryUpload kc st w =
     (case currentSession st of
        None \<Rightarrow> (Inl (TypeError ''Cannot read properties of null''), w)
      | Some s \<Rightarrow> uploadImage (config st) (snd kc) (sid s) w)"

text \<open>
  The \<open>for\<close> loop of \<open>uploadWithRetry\<close>, from \<open>attempt\<close> on. An exception thrown by
  \<open>reportProgress\<close> inside the \<open>catch\<close> block leaves the function.
\<close>

function uploadAttempts ::
  "nat \<Rightarrow> nat \<Rightarrow> error option \<Rightarrow> (nat \<times> capture) \<Rightarrow> publisher \<Rightarrow> world
     \<Rightarrow> (error + (string option \<times> bool)) \<times> publisher \<times> world" where
  "uploadAttempts attempt maxRetries lastError kc st w =
     (if attempt \<le> maxRetries then
        (case tryUpload kc st w of
           (Inr result, w1) \<Rightarrow> (Inr result, st, w1)
         | (Inl e, w1) \<Rightarrow>
             (if isRateLimited (messageOf e) then
                (case reportProgress (Some ''Rate limited. Waiting...'') st of
                   Inl thrown \<Rightarrow>
                     (Inl thrown, st, w1\<lparr>debug := debug w1 @ [AttemptFailed attempt (messageOf e)]\<rparr>)
                 | Inr st1 \<Rightarrow>
                     uploadAttempts (attempt + 1) maxRetries (Some e) kc st1
                       (delay 60000 (w1\<lparr>debug := debug w1 @ [AttemptFailed attempt (messageOf e)]\<rparr>)))
              else if attempt < maxRetries then
                uploadAttempts (attempt + 1) maxRetries (Some e) kc st
                  (delay (min (1000 * 2 ^ attempt) 60000)
                     (w1\<lparr>debug := debug w1 @ [AttemptFailed attempt (messageOf e)]\<rparr>))
              else
                uploadAttempts (attempt + 1) maxRetries (Some e) kc st
                  (w1\<lparr>debug := debug w1 @ [AttemptFailed attempt (messageOf e)]\<rparr>)))
      else
        (Inl (case lastError of None \<Rightarrow> Error ''Upload failed after all retries'' | Some e \<Rightarrow> e),
         st, w))"
  by pat_completeness auto
termination
  by (relation "measure (\<lambda>(attempt, maxRetries, lastError, kc, st, w). maxRetries + 1 - attempt)") auto

declare uploadAttempts.simps [simp del]

definition uploadWithRetry ::
  "(nat \<times> capture) \<Rightarrow> publisher \<Rightarrow> world \<Rightarrow> (error + (string option \<times> bool)) \<times> publisher \<times> world" where
  "uploadWithRetry kc st w = uploadAttempts 1 5 None kc st w"

subsection \<open>Finishing\<close>

text \<open>
  The texts of \<open>data.csv\<close>, \<open>metadata.json\<close> and the merged coverage index are inputs:
  what \<open>generateCSV\<close>, \<open>JSON.stringify\<close> and the \<open>turf\<close> calls produce is outside the
  properties proved here, and the \<open>turf\<close> calls are taken not to throw.
  \<open>updateCoverageIndex\<close> swallows every error.
\<close>

record documents =
  csvText :: string
  metadataText :: string
  indexText :: string

definition updateCoverageIndex ::
  "documents \<Rightarrow> session \<Rightarrow> (nat \<times> capture) list \<Rightarrow> config option \<Rightarrow> world \<Rightarrow> world" where
  "updateCoverageIndex docs session cs cfgo w =
     (case cfgo of
        None \<Rightarrow> w
      | Some cfg \<Rightarrow>
          (case fetch GetRawIndex w of
             (r, w1) \<Rightarrow>
               if length (filter (\<lambda>kc. gpsFix (snd kc)) cs) < 2 then w1
               else
                 (case fileExists cfg ''coverage-index.geojson'' w1 of
                    (existing, w2) \<Rightarrow>
                      snd (uploadFile cfg ''coverage-index.geojson'' (indexText docs)
                             ''Update coverage index''
                             (if ex_exists existing then ex_sha existing else None) w2))))"

text \<open>
  The first part of the \<open>try\<close> block of \<open>finishPublish\<close>: the two documents and the
  coverage index. The result is the exception thrown, if any.
\<close>

definition finishUploads ::
  "documents \<Rightarrow> session \<Rightarrow> publisher \<Rightarrow> world \<Rightarrow> db \<Rightarrow> error option \<times> publisher \<times> world" where
  "finishUploads docs session st w d =
     (case reportProgress (Some ''Uploading metadata...'') st of
        Inl e \<Rightarrow> (Some e, st, w)
      | Inr st1 \<Rightarrow>
          (case config st1 of
             None \<Rightarrow> (Some (TypeError ''Cannot read properties of null''), st1, w)
           | Some cfg \<Rightarrow>
               (case fileExists cfg (''sessions/'' @ sid session @ ''/data.csv'') w of
                  (existingCsv, w1) \<Rightarrow>
                    (case uploadFile cfg (''sessions/'' @ sid session @ ''/data.csv'') (csvText docs)
                            (''Upload data.csv for session '' @ sid session)
                            (if ex_exists existingCsv then ex_sha existingCsv else None) w1 of
                       (Inl e, w2) \<Rightarrow> (Some e, st1, w2)
                     | (Inr r, w2) \<Rightarrow>
                         (case fileExists cfg (''sessions/'' @ sid session @ ''/metadata.json'') w2 of
                            (existingMetadata, w3) \<Rightarrow>
                              (case uploadFile cfg (''sessions/'' @ sid session @ ''/metadata.json'')
                                      (metadataText docs)
                                      (''Upload metadata for session '' @ sid session)
                                      (if ex_exists existingMetadata then ex_sha existingMetadata
                                       else None) w3 of
                                 (Inl e, w4) \<Rightarrow> (Some e, st1, w4)
                               | (Inr r', w4) \<Rightarrow>
                                   (None, st1,
                                    updateCoverageIndex docs session
                                      (getSessionCaptures (sid session) d) (config st1) w4)))))))"

definition startedAt :: "publisher \<Rightarrow> int" where
  "startedAt st = (case pub_startTime st of None \<Rightarrow> 0 | Some t \<Rightarrow> t)"

text \<open>
  \<open>finishPublish\<close>. \<open>session\<close> is the object held in \<open>publisherState.currentSession\<close>, so
  setting its status changes that too. Without a current session the first statement
  throws outside the \<open>try\<close> and nothing is changed.
\<close>

definition finishPublish :: "documents \<Rightarrow> int \<Rightarrow> publisher \<Rightarrow> world \<Rightarrow> db \<Rightarrow> publisher \<times> world \<times> db" where
  "finishPublish docs now st w d =
     (case currentSession st of
        None \<Rightarrow> (st, w, d)
      | Some session \<Rightarrow>
          (case finishUploads docs session st w d of
             (Some e, st1, w1) \<Rightarrow>
               (let st2 = st1\<lparr>isPublishing := False\<rparr>
                in (if onError st2 then st2\<lparr>events := events st2 @ [Failed e None]\<rparr> else st2, w1, d))
           | (None, st1, w1) \<Rightarrow>
               (let session' = session\<lparr>status := (if failed st1 > 0 then PartiallyPublished
                                                     else Published)\<rparr>;
                    d1 = updateSession session' d;
                    d2 = savePublishState
                           \<lparr> ps_sessionId = sid session, publishStarted = startedAt st1,
                             totalToUpload = total st1, ps_completed = completed st1,
                             ps_failed = failed st1, inProgress = False,
                             completedAt = Some now \<rparr> d1;
                    st2 = st1\<lparr>currentSession := Some session', isPublishing := False\<rparr>
                in (if onComplete st2
                    then st2\<lparr>events := events st2
                              @ [Complete (completed st2) (failed st2) (total st2)]\<rparr>
                    else st2, w1, d2))))"

subsection \<open>The drain loop\<close>

text \<open>The \<open>catch\<close> block of the loop body.\<close>

definition uploadFailed :: "error \<Rightarrow> (nat \<times> capture) \<Rightarrow> publisher \<Rightarrow> publisher" where
  "uploadFailed e kc st =
     (let st1 = st\<lparr>failed := failed st + 1, queue := tl (queue st)\<rparr>
      in if onError st1 then st1\<lparr>events := events st1 @ [Failed e (Some kc)]\<rparr> else st1)"

text \<open>
  One round of the \<open>while\<close> loop, entered with a non-empty queue. The result says
  whether the loop goes on (\<open>True\<close>) or was left by \<open>break\<close>.
\<close>

definition drainStep :: "publisher \<Rightarrow> world \<Rightarrow> db \<Rightarrow> bool \<times> publisher \<times> world \<times> db" where
  "drainStep st w d =
     (let kc = hd (queue st);
          currentSessionId = map_option sid (currentSession st)
      in case reportProgress (Some (''Uploading image '' @ toString (sequenceNum (snd kc)) @ ''...'')) st of
           Inl e \<Rightarrow> (True, uploadFailed e kc st, w, d)
         | Inr st1 \<Rightarrow>
             (case uploadWithRetry kc st1 w of
                (Inl e, st2, w2) \<Rightarrow> (True, uploadFailed e kc st2, w2, d)
              | (Inr (url, skipped), st2, w2) \<Rightarrow>
                  if map_option sid (currentSession st2) \<noteq> currentSessionId
                  then (False, st2, w2, d)
                  else
                    (case markCapturePublished (fst kc) url d of
                       Inl e \<Rightarrow> (True, uploadFailed e kc st2, w2, d)
                     | Inr (kc', d1) \<Rightarrow>
                         (let st3 = st2\<lparr>completed := completed st2 + 1, queue := tl (queue st2)\<rparr>
                          in case currentSession st3 of
                               None \<Rightarrow>
                                 (True, uploadFailed (TypeError ''Cannot read properties of null'')
                                          kc st3, w2, d1)
                             | Some s \<Rightarrow>
                                 (let d2 = savePublishState
                                             \<lparr> ps_sessionId = sid s, publishStarted = startedAt st3,
                                               totalToUpload = total st3,
                                               ps_completed = completed st3,
                                               ps_failed = failed st3, inProgress = True,
                                               completedAt = None \<rparr> d1
                                  in case reportProgress None st3 of
                                       Inl e \<Rightarrow> (True, uploadFailed e kc st3, w2, d2)
                                     | Inr st4 \<Rightarrow> (True, st4, delay 500 w2, d2))))))"

text \<open>
  The \<open>while\<close> loop of \<open>processQueue\<close>. Every round that goes on has taken at least
  one capture off the queue.
\<close>

function drainLoop :: "publisher \<Rightarrow> world \<Rightarrow> db \<Rightarrow> publisher \<times> world \<times> db" where
  "drainLoop st w d =
     (if length (queue st) > 0 \<and> isPublishing st \<and> \<not> isPaused st
      then (let r = drainStep st w d
            in if fst r then drainLoop (fst (snd r)) (fst (snd (snd r))) (snd (snd (snd r)))
               else snd r)
      else (st, w, d))"
  by pat_completeness auto
termination
proof (relation "measure (\<lambda>(st, w, d). length (queue st))")
  show "wf (measure (\<lambda>(st, w, d). length (queue st)))" by simp
next
  fix st :: publisher and w :: world and d :: db and r
  assume c: "0 < length (queue st) \<and> isPublishing st \<and> \<not> isPaused st"
    and r: "r = drainStep st w d" and go: "fst r"
  have rp: "\<And>t s s'. reportProgress t s = Inr s' \<Longrightarrow> queue s' = queue s"
    by (auto simp: reportProgress_def split: if_splits)
  have ub: "\<And>n a m l kc s v. m + 1 - a = n
                \<Longrightarrow> queue (fst (snd (uploadAttempts a m l kc s v))) = queue s"
  proof -
    fix n a m l kc s v
    show "m + 1 - a = n \<Longrightarrow> queue (fst (snd (uploadAttempts a m l kc s v))) = queue s"
    proof (induction n arbitrary: a l s v)
      case 0
      then show ?case by (subst uploadAttempts.simps) simp
    next
      case (Suc n)
      from Suc.prems show ?case
        by (subst uploadAttempts.simps)
           (auto simp: Suc.IH dest: rp split: prod.splits sum.splits)
    qed
  qed
  have ua: "\<And>a m l kc s v. queue (fst (snd (uploadAttempts a m l kc s v))) = queue s"
    using ub by blast
  have uw: "\<And>kc s v e s' v'. uploadWithRetry kc s v = (e, s', v') \<Longrightarrow> queue s' = queue s"
    using ua by (metis uploadWithRetry_def fst_conv snd_conv)
  have "length (queue (fst (snd (drainStep st w d)))) < length (queue st)"
    using c go [unfolded r]
    by (auto simp: drainStep_def uploadFailed_def Let_def dest!: rp uw
        split: sum.splits prod.splits option.splits if_splits)
  with r show "((fst (snd r), fst (snd (snd r)), snd (snd (snd r))), st, w, d)
        \<in> measure (\<lambda>(st, w, d). length (queue st))"
    by (simp add: case_prod_beta)
qed

declare drainLoop.simps [simp del]

text \<open>
  \<open>processQueue\<close>, run until its promise settles with no other task in between. The
  promise is not awaited by its callers, so its result is the state it leaves. \<open>now\<close> is
  the clock when the job finishes.
\<close>

definition processQueue :: "documents \<Rightarrow> int \<Rightarrow> publisher \<Rightarrow> world \<Rightarrow> db \<Rightarrow> publisher \<times> world \<times> db" where
  "processQueue docs now st w d =
     (if isProcessing st then (st, w, d)
      else
        (case drainLoop (st\<lparr>isProcessing := True\<rparr>) w d of
           (st1, w1, d1) \<Rightarrow>
             (case (if length (queue st1) = 0 \<and> isPublishing st1
                    then finishPublish docs now st1 w1 d1
                    else (st1, w1, d1)) of
                (st2, w2, d2) \<Rightarrow> (st2\<lparr>isProcessing := False\<rparr>, w2, d2))))"

text \<open>A whole job: \<open>startPublish\<close> and the drain it starts, run to its end.\<close>

definition runPublish ::
  "string \<Rightarrow> config \<Rightarrow> bool \<Rightarrow> bool \<Rightarrow> bool \<Rightarrow> int \<Rightarrow> documents \<Rightarrow> int \<Rightarrow> publisher \<Rightarrow> world \<Rightarrow> db
     \<Rightarrow> (error + nat) \<times> publisher \<times> world \<times> db" where
  "runPublish k cfg cbProgress cbComplete cbError now docs endTime st w d =
     (case startPublish k cfg cbProgress cbComplete cbError now st w d of
        (Inl e, st1, w1, d1) \<Rightarrow> (Inl e, st1, w1, d1)
      | (Inr n, st1, w1, d1) \<Rightarrow> (Inr n, processQueue docs endTime st1 w1 d1))"

subsection \<open>Cancel\<close>




section \<open>Notions used to state the properties\<close>

text \<open>The persisted captures of a session, in store order, and a session's aggregates
  agreeing with them.\<close>

definition capturesOf :: "string \<Rightarrow> db \<Rightarrow> (nat \<times> capture) list" where
  "capturesOf k d = filter (\<lambda>kc. sessionId (snd kc) = k) (captures d)"

definition aggregatesOk :: "string \<Rightarrow> db \<Rightarrow> bool" where
  "aggregatesOk k d =
     (case getSession k d of
        None \<Rightarrow> False
      | Some s \<Rightarrow> captureCount s = length (capturesOf k d)
                \<and> totalBytes s = sum_list (map (\<lambda>kc. bytesOf (snd kc)) (capturesOf k d)))"

text \<open>A caller issuing \<open>saveCapture\<close> calls one after the other, whatever each returns.\<close>

fun saveCaptures :: "(capture \<times> int \<times> capture_txn) list \<Rightarrow> db \<Rightarrow> db" where
  "saveCaptures [] d = d"
| "saveCaptures ((c, now, t) # ops) d = saveCaptures ops (snd (saveCapture c now t d))"

text \<open>The gap record of an adjacent pair of captures.\<close>

definition mkGap :: "(nat \<times> capture) \<times> (nat \<times> capture) \<Rightarrow> gap" where
  "mkGap p = \<lparr> after = sequenceNum (snd (fst p)), before = sequenceNum (snd (snd p)),
               missing = sequenceNum (snd (snd p)) - sequenceNum (snd (fst p)) - 1 \<rparr>"


text \<open>The wait that follows the failure recorded by a debug entry.\<close>

definition retryWait :: "nat \<Rightarrow> debug_entry \<Rightarrow> nat option" where
  "retryWait maxRetries e =
     (case e of AttemptFailed attempt m \<Rightarrow>
        if isRateLimited m then Some 60000
        else if attempt < maxRetries then Some (min (1000 * 2 ^ attempt) 60000)
        else None)"

definition attemptOf :: "debug_entry \<Rightarrow> nat" where
  "attemptOf e = (case e of AttemptFailed attempt m \<Rightarrow> attempt)"

definition failureOf :: "debug_entry \<Rightarrow> string" where
  "failureOf e = (case e of AttemptFailed attempt m \<Rightarrow> m)"

subsection \<open>Concrete stores\<close>

text \<open>Inputs on which the properties below are evaluated.\<close>

definition emptyDb :: db where
  "emptyDb = \<lparr> sessions = [], captures = [], publishState = [], keyGen = 1 \<rparr>"

definition exSession :: "string \<Rightarrow> status \<Rightarrow> session" where
  "exSession k st =
     \<lparr> sid = k, name = ''walk'', createdAt = ''2026-01-01T00:00:00.000Z'', status = st,
       captureCount = 0, totalBytes = 0, avgImageSize = 0, duration = 0, startTime = 0,
       lastCaptureTime = None,
       settings = \<lparr> captureInterval = 2000, imageQuality = 7 / 10, imageMaxWidth = 1280 \<rparr>,
       recoveryInfo = None \<rparr>"

definition exCapture :: "string \<Rightarrow> int \<Rightarrow> capture" where
  "exCapture k n =
     \<lparr> sessionId = k, sequenceNum = n, timestamp = ''t'', gpsFix = False, imageData = None,
       imageBlob = Some \<lparr> blob_size = 3, blob_base64 = Some ''QUJD'' \<rparr>,
       imageSizeBytes = Some 3, published = False, publishedUrl = None \<rparr>"

text \<open>A recording session with captures 1, 2, 4, 5, and one with captures 1, 2.\<close>

definition gapDb :: db where
  "gapDb = \<lparr> sessions = [exSession ''s1'' Recording],
             captures = [(1, exCapture ''s1'' 1), (2, exCapture ''s1'' 2),
                         (3, exCapture ''s1'' 4), (4, exCapture ''s1'' 5)],
             publishState = [], keyGen = 5 \<rparr>"

definition noGapDb :: db where
  "noGapDb = \<lparr> sessions = [exSession ''s1'' Recording],
               captures = [(1, exCapture ''s1'' 1), (2, exCapture ''s1'' 2)],
               publishState = [], keyGen = 3 \<rparr>"

definition oneSessionDb :: db where
  "oneSessionDb = emptyDb\<lparr>sessions := [exSession ''s1'' Recording]\<rparr>"

definition exOps :: "(capture \<times> int \<times> capture_txn) list" where
  "exOps = [(exCapture ''s1'' 1, 1000, Committed), (exCapture ''s1'' 1, 2000, Committed),
            (exCapture ''s2'' 1, 2500, Committed), (exCapture ''s1'' 7, 2600, AbortedAfterAdd),
            (exCapture ''s1'' 8, 2700, AbortedBeforeAdd)]"

definition fullDb :: db where
  "fullDb = \<lparr> sessions = [exSession ''s1'' Publishing, exSession ''s2'' Stopped],
              captures = [(1, exCapture ''s1'' 1), (2, exCapture ''s2'' 1), (3, exCapture ''s1'' 2)],
              publishState = [\<lparr> ps_sessionId = ''s1'', publishStarted = 0, totalToUpload = 2,
                                 ps_completed = 0, ps_failed = 0, inProgress = True,
                                 completedAt = None \<rparr>],
              keyGen = 4 \<rparr>"

definition afterDeleteDb :: db where
  "afterDeleteDb = \<lparr> sessions = [exSession ''s2'' Stopped], captures = [(2, exCapture ''s2'' 1)],
                     publishState = [], keyGen = 4 \<rparr>"

definition recoveredGapSession :: session where
  "recoveredGapSession = (exSession ''s1'' Recording)
     \<lparr> recoveryInfo := Some \<lparr> potentialMissedFrames = 1, ri_lastCaptureTime = Some ''t'',
                               gaps = [\<lparr> after = 2, before = 4, missing = 1 \<rparr>] \<rparr>,
       status := Paused \<rparr>"

subsection \<open>Concrete remote worlds and jobs\<close>

text \<open>A repository without files, with a valid token that may push, and a given quota.\<close>

definition exConfig :: config where
  "exConfig = \<lparr> token = ''t0k3n'', repo = ''owner/repo'', branch = None, contributor = None \<rparr>"

definition exWorld :: "nat \<Rightarrow> world" where
  "exWorld remaining =
     \<lparr> files = Map.empty,
       account = \<lparr> tokenValid = True, login = ''walker'', repoFound = True, canPush = True,
                   rateRemaining = remaining, rateLimit = 5000, rateResetText = ''12:00:00'' \<rparr>,
       faults = [], requests = [], delays = [], debug = [] \<rparr>"


text \<open>The documents of the finishing phase.\<close>

definition exDocs :: documents where
  "exDocs = \<lparr> csvText = ''sequence,timestamp'', metadataText = ''{}'', indexText = ''{}'' \<rparr>"

text \<open>A capture without payload, and a remote that already holds the image of capture 1 of
  session \<open>s1\<close>; the remote after one upload of that image.\<close>

definition noPayloadCapture :: capture where
  "noPayloadCapture = (exCapture ''s1'' 1)\<lparr>imageBlob := None, imageSizeBytes := None\<rparr>"

definition imageWorld :: world where
  "imageWorld = (exWorld 5000)\<lparr>files := [''sessions/s1/images/000001.jpg'' \<mapsto> ''QUJD'']\<rparr>"

definition afterUploadWorld :: world where
  "afterUploadWorld =
     (exWorld 5000)\<lparr> files := [''sessions/s1/images/000001.jpg'' \<mapsto> ''QUJD''],
                      requests := [GetContents ''sessions/s1/images/000001.jpg'',
                                   PutContents ''sessions/s1/images/000001.jpg'' ''QUJD'' None
                                     ''Upload image 1''] \<rparr>"



text \<open>A capture whose Blob can no longer be read; the state of a running job over a given
  queue; the log left by five failed attempts on the unreadable capture.\<close>

definition corruptCapture :: "string \<Rightarrow> int \<Rightarrow> capture" where
  "corruptCapture k n = (exCapture k n)\<lparr>imageBlob := Some \<lparr> blob_size = 3, blob_base64 = None \<rparr>\<rparr>"

definition jobState :: "(nat \<times> capture) list \<Rightarrow> publisher" where
  "jobState q =
     \<lparr> isPublishing = True, isPaused = False, isProcessing = True,
       currentSession = Some (exSession ''s1'' Publishing), config = Some exConfig,
       queue = q, completed = 0, failed = 0, total = length q, pub_startTime = Some 1000,
       onProgress = False, onComplete = True, onError = True, events = [] \<rparr>"

definition corruptMessage :: "int \<Rightarrow> string" where
  "corruptMessage n = ''Image #'' @ toString n @ '' data is corrupted. This session was created with an older app version. Please delete it and create a new session.''"

definition failingQueue :: "(nat \<times> capture) list" where
  "failingQueue = [(1, corruptCapture ''s1'' 1), (2, exCapture ''s1'' 2)]"

definition afterRetriesWorld :: world where
  "afterRetriesWorld =
     (exWorld 5000)\<lparr> requests := [GetContents ''sessions/s1/images/000001.jpg'',
                                   GetContents ''sessions/s1/images/000001.jpg'',
                                   GetContents ''sessions/s1/images/000001.jpg'',
                                   GetContents ''sessions/s1/images/000001.jpg'',
                                   GetContents ''sessions/s1/images/000001.jpg''],
                      delays := [2000, 4000, 8000, 16000],
                      debug := [AttemptFailed 1 (corruptMessage 1), AttemptFailed 2 (corruptMessage 1),
                                AttemptFailed 3 (corruptMessage 1), AttemptFailed 4 (corruptMessage 1),
                                AttemptFailed 5 (corruptMessage 1)] \<rparr>"

text \<open>
  The job of three eligible captures of which the first cannot be read: the store before
  \<open>startPublish\<close>, the state, remote and store when it returns, when the queue is
  drained, and the remote after the finishing phase.
\<close>

definition scenarioQueue :: "(nat \<times> capture) list" where
  "scenarioQueue = [(1, corruptCapture ''s1'' 1), (2, exCapture ''s1'' 2), (3, exCapture ''s1'' 3)]"

definition scenarioDb :: db where
  "scenarioDb = \<lparr> sessions = [exSession ''s1'' Stopped], captures = scenarioQueue,
                  publishState = [], keyGen = 4 \<rparr>"

definition startedState :: publisher where
  "startedState = (jobState scenarioQueue)\<lparr>isProcessing := False\<rparr>"

definition startedWorld :: world where
  "startedWorld = (exWorld 5000)\<lparr>requests := [GetUser, GetRepo, GetRateLimit]\<rparr>"

definition startedDb :: db where
  "startedDb =
     scenarioDb\<lparr> sessions := [exSession ''s1'' Publishing],
                  publishState := [\<lparr> ps_sessionId = ''s1'', publishStarted = 1000,
                                     totalToUpload = 3, ps_completed = 0, ps_failed = 0,
                                     inProgress = True, completedAt = None \<rparr>] \<rparr>"

definition publishedCapture :: "int \<Rightarrow> string \<Rightarrow> capture" where
  "publishedCapture n url = (exCapture ''s1'' n)\<lparr>published := True, publishedUrl := Some url\<rparr>"

definition drainedState :: publisher where
  "drainedState =
     (jobState [])\<lparr> completed := 2, failed := 1, total := 3,
                     events := [Failed (Error (corruptMessage 1))
                                  (Some (1, corruptCapture ''s1'' 1))] \<rparr>"

definition drainedWorld :: world where
  "drainedWorld =
     (exWorld 5000)
       \<lparr> files := [''sessions/s1/images/000002.jpg'' \<mapsto> ''QUJD'',
                   ''sessions/s1/images/000003.jpg'' \<mapsto> ''QUJD''],
         requests := [GetUser, GetRepo, GetRateLimit,
                      GetContents ''sessions/s1/images/000001.jpg'',
                      GetContents ''sessions/s1/images/000001.jpg'',
                      GetContents ''sessions/s1/images/000001.jpg'',
                      GetContents ''sessions/s1/images/000001.jpg'',
                      GetContents ''sessions/s1/images/000001.jpg'',
                      GetContents ''sessions/s1/images/000002.jpg'',
                      PutContents ''sessions/s1/images/000002.jpg'' ''QUJD'' None ''Upload image 2'',
                      GetContents ''sessions/s1/images/000003.jpg'',
                      PutContents ''sessions/s1/images/000003.jpg'' ''QUJD'' None ''Upload image 3''],
         delays := [2000, 4000, 8000, 16000, 500, 500],
         debug := [AttemptFailed 1 (corruptMessage 1), AttemptFailed 2 (corruptMessage 1),
                   AttemptFailed 3 (corruptMessage 1), AttemptFailed 4 (corruptMessage 1),
                   AttemptFailed 5 (corruptMessage 1)] \<rparr>"

definition drainedDb :: db where
  "drainedDb =
     startedDb\<lparr> captures :=
                   [(1, corruptCapture ''s1'' 1),
                    (2, publishedCapture 2
                          ''https://raw.githubusercontent.com/sessions/s1/images/000002.jpg''),
                    (3, publishedCapture 3
                          ''https://raw.githubusercontent.com/sessions/s1/images/000003.jpg'')],
                 publishState := [\<lparr> ps_sessionId = ''s1'', publishStarted = 1000,
                                    totalToUpload = 3, ps_completed = 2, ps_failed = 1,
                                    inProgress = True, completedAt = None \<rparr>] \<rparr>"

definition finishedWorld :: world where
  "finishedWorld =
     drainedWorld
       \<lparr> files := [''sessions/s1/images/000002.jpg'' \<mapsto> ''QUJD'',
                   ''sessions/s1/images/000003.jpg'' \<mapsto> ''QUJD'',
                   ''sessions/s1/data.csv'' \<mapsto> ''sequence,timestamp'',
                   ''sessions/s1/metadata.json'' \<mapsto> ''{}''],
         requests := requests drainedWorld
                     @ [GetContents ''sessions/s1/data.csv'',
                        PutContents ''sessions/s1/data.csv'' ''sequence,timestamp'' None
                          ''Upload data.csv for session s1'',
                        GetContents ''sessions/s1/metadata.json'',
                        PutContents ''sessions/s1/metadata.json'' ''{}'' None
                          ''Upload metadata for session s1'',
                        GetRawIndex] \<rparr>"

text \<open>A session whose only capture has no payload, and one whose capture has its payload
  in \<open>imageData\<close> only.\<close>

definition noPayloadDb :: db where
  "noPayloadDb =
     \<lparr> sessions = [exSession ''s1'' Stopped],
       captures = [(1, (exCapture ''s1'' 1)\<lparr>imageBlob := None, imageSizeBytes := None\<rparr>)],
       publishState = [], keyGen = 2 \<rparr>"

definition dataOnlyDb :: db where
  "dataOnlyDb =
     \<lparr> sessions = [exSession ''s1'' Stopped],
       captures = [(1, (exCapture ''s1'' 1)\<lparr>imageBlob := None, imageData := Some ''QUJD''\<rparr>)],
       publishState = [], keyGen = 2 \<rparr>"


section \<open>Properties of the store\<close>

lemma store_get_put_same: "key v = k \<Longrightarrow> store_get key k (store_put key v xs) = Some v"
  by (induction xs) (auto simp: store_get_def)

lemma store_get_put_other:
  "k \<noteq> key v \<Longrightarrow> store_get key k (store_put key v xs) = store_get key k xs"
  by (induction xs) (auto simp: store_get_def)

lemma store_get_Some: "store_get key k xs = Some v \<Longrightarrow> key v = k \<and> v \<in> set xs"
  by (induction xs) (auto simp: store_get_def split: if_splits)

lemma store_get_delete: "store_get key k (store_delete key k xs) = None"
  by (induction xs) (auto simp: store_get_def store_delete_def)

subsection \<open>saveCapture\<close>

lemma saveCapture_cases:
  "saveCapture c now t d = (r, d') \<Longrightarrow>
     (\<exists>e. r = Inl e \<and> d' = d) \<or>
     (r = Inr (keyGen d) \<and> t = AbortedAfterAdd \<and> d' = d) \<or>
     (r = Inr (keyGen d) \<and> t = Committed
        \<and> captures d' = captures d @ [(keyGen d, c)] \<and> keyGen d' = keyGen d + 1
        \<and> publishState d' = publishState d
        \<and> (\<forall>k. k \<noteq> sessionId c \<longrightarrow> getSession k d' = getSession k d)
        \<and> (case getSession (sessionId c) d of
              None \<Rightarrow> sessions d' = sessions d
            | Some s \<Rightarrow> \<exists>s'. getSession (sessionId c) d' = Some s'
                 \<and> captureCount s' = captureCount s + 1
                 \<and> totalBytes s' = totalBytes s + bytesOf c))"
  by (auto simp: saveCapture_def getSession_def Let_def store_get_put_other store_get_put_same
      dest!: store_get_Some split: capture_txn.splits if_splits option.splits)

lemma saveCapture_aggregatesOk:
  assumes "aggregatesOk k d"
  shows "aggregatesOk k (snd (saveCapture c now t d))"
proof -
  obtain r d' where sc: "saveCapture c now t d = (r, d')" by (cases "saveCapture c now t d")
  from saveCapture_cases [OF sc] consider
      (unchanged) "d' = d"
    | (stored) "captures d' = captures d @ [(keyGen d, c)]"
        "\<forall>k. k \<noteq> sessionId c \<longrightarrow> getSession k d' = getSession k d"
        "case getSession (sessionId c) d of
              None \<Rightarrow> sessions d' = sessions d
            | Some s \<Rightarrow> \<exists>s'. getSession (sessionId c) d' = Some s'
                 \<and> captureCount s' = captureCount s + 1
                 \<and> totalBytes s' = totalBytes s + bytesOf c"
    by blast
  then show ?thesis
  proof cases
    case unchanged
    with assms sc show ?thesis by simp
  next
    case stored
    show ?thesis
    proof (cases "k = sessionId c")
      case True
      with assms stored sc show ?thesis
        by (auto simp: aggregatesOk_def capturesOf_def split: option.splits)
    next
      case False
      with assms stored sc show ?thesis
        by (auto simp: aggregatesOk_def capturesOf_def split: option.splits)
    qed
  qed
qed

lemma saveCaptures_aggregatesOk:
  "aggregatesOk k d \<Longrightarrow> aggregatesOk k (saveCaptures ops d)"
  by (induction ops d rule: saveCaptures.induct) (auto simp: saveCapture_aggregatesOk)

lemma createSession_aggregatesOk:
  "createSession nm i q w now isoText localeDate d = Inr (s, d') \<Longrightarrow> capturesOf (sid s) d = []
     \<Longrightarrow> aggregatesOk (sid s) d'"
  by (auto simp: createSession_def aggregatesOk_def capturesOf_def getSession_def Let_def
      store_get_put_same split: if_splits)

text \<open>
  A call that has resolved with a key need not have stored anything: when the transaction
  aborts after the \<open>add\<close> request has succeeded, the store is as it was before the call.
\<close>

lemma saveCapture_resolved_unstored:
  "saveCapture (exCapture ''s1'' 1) 1000 AbortedAfterAdd oneSessionDb = (Inr 1, oneSessionDb)"
  by (simp add: saveCapture_def oneSessionDb_def emptyDb_def)

text \<open>
  C1. For a session whose \<open>captureCount\<close> and \<open>totalBytes\<close> agree with its persisted
  captures, they still agree after any sequence of \<open>saveCapture\<close> calls (for this or any
  other session; committed, rejected, or rolled back after the call has resolved), and
  after one more call. That call leaves the store in one of two states: unchanged, or with
  the capture appended and, in the same step, one added to the owning session's
  \<open>captureCount\<close> and the capture's \<open>imageSizeBytes\<close> (0 when absent) to its \<open>totalBytes\<close>;
  no state has the capture without the update or the update without the capture. A
  rejected call leaves the store unchanged; a call that resolves does so with the
  generated key, and has stored the capture with the update exactly when its transaction
  committed.
\<close>

theorem saveCapture_aggregates:
  assumes "aggregatesOk k d"
    and "d1 = saveCaptures ops d"
    and "saveCapture c now t d1 = (r, d2)"
  shows "aggregatesOk k d1 \<and> aggregatesOk k d2
       \<and> (case r of
            Inl e \<Rightarrow> d2 = d1
          | Inr key \<Rightarrow> key = keyGen d1
              \<and> (if t = Committed
                 then captures d2 = captures d1 @ [(key, c)]
                    \<and> (\<forall>s. getSession (sessionId c) d1 = Some s \<longrightarrow>
                          (\<exists>s'. getSession (sessionId c) d2 = Some s'
                             \<and> captureCount s' = captureCount s + 1
                             \<and> totalBytes s' = totalBytes s + bytesOf c))
                 else d2 = d1))"
proof -
  have 1: "aggregatesOk k d1" using assms(1,2) by (simp add: saveCaptures_aggregatesOk)
  have 2: "aggregatesOk k d2" using saveCapture_aggregatesOk [OF 1, of c now t] assms(3) by simp
  have 3: "case r of
            Inl e \<Rightarrow> d2 = d1
          | Inr key \<Rightarrow> key = keyGen d1
              \<and> (if t = Committed
                 then captures d2 = captures d1 @ [(key, c)]
                    \<and> (\<forall>s. getSession (sessionId c) d1 = Some s \<longrightarrow>
                          (\<exists>s'. getSession (sessionId c) d2 = Some s'
                             \<and> captureCount s' = captureCount s + 1
                             \<and> totalBytes s' = totalBytes s + bytesOf c))
                 else d2 = d1)"
    using saveCapture_cases [OF assms(3)] by (auto split: option.splits)
  from 1 2 3 show ?thesis by simp
qed

theorem saveCapture_aggregates_witness:
  "aggregatesOk ''s1'' oneSessionDb
   \<and> aggregatesOk ''s1'' (snd (saveCapture (exCapture ''s1'' 2) 3000 Committed (saveCaptures exOps oneSessionDb)))
   \<and> map_option captureCount (getSession ''s1''
       (snd (saveCapture (exCapture ''s1'' 2) 3000 Committed (saveCaptures exOps oneSessionDb)))) = Some 2
   \<and> length (capturesOf ''s1''
       (snd (saveCapture (exCapture ''s1'' 2) 3000 Committed (saveCaptures exOps oneSessionDb)))) = 2"
proof -
  have h: "aggregatesOk ''s1'' oneSessionDb"
    by (simp add: oneSessionDb_def aggregatesOk_def emptyDb_def exSession_def getSession_def store_get_def capturesOf_def)
  have e: "map_option captureCount (getSession ''s1''
       (snd (saveCapture (exCapture ''s1'' 2) 3000 Committed (saveCaptures exOps oneSessionDb)))) = Some 2
     \<and> length (capturesOf ''s1''
       (snd (saveCapture (exCapture ''s1'' 2) 3000 Committed (saveCaptures exOps oneSessionDb)))) = 2"
    by (simp add: oneSessionDb_def exOps_def saveCapture_def emptyDb_def exSession_def exCapture_def
        getSession_def store_get_def Let_def bytesOf_def capturesOf_def)
  from saveCapture_aggregates [where k = "''s1''" and d = oneSessionDb and ops = exOps
      and c = "exCapture ''s1'' 2" and now = 3000 and t = Committed, OF h refl surjective_pairing] h e
  show ?thesis by simp
qed

text \<open>
  C10. A capture whose \<open>sessionId\<close> matches no persisted session (and whose
  \<open>[sessionId, sequenceNum]\<close> pair is not taken) is stored without any error: the call
  resolves with the key the store generated, the capture is in the store, and no session
  record is created or changed.
\<close>

theorem saveCapture_orphan:
  assumes "getSession (sessionId c) d = None"
    and "\<forall>kc \<in> set (captures d).
           sessionId (snd kc) = sessionId c \<longrightarrow> sequenceNum (snd kc) \<noteq> sequenceNum c"
  shows "saveCapture c now Committed d =
           (Inr (keyGen d), d\<lparr>captures := captures d @ [(keyGen d, c)], keyGen := keyGen d + 1\<rparr>)
       \<and> sessions (snd (saveCapture c now Committed d)) = sessions d
       \<and> (keyGen d, c) \<in> set (captures (snd (saveCapture c now Committed d)))
       \<and> getSession (sessionId c) (snd (saveCapture c now Committed d)) = None"
  using assms by (auto simp: saveCapture_def getSession_def Let_def)

theorem saveCapture_orphan_witness:
  "getSession ''gone'' oneSessionDb = None
   \<and> saveCapture (exCapture ''gone'' 1) 1000 Committed oneSessionDb =
       (Inr 1, oneSessionDb\<lparr>captures := [(1, exCapture ''gone'' 1)], keyGen := 2\<rparr>)"
proof -
  have h1: "getSession (sessionId (exCapture ''gone'' 1)) oneSessionDb = None"
    by (simp add: oneSessionDb_def emptyDb_def exSession_def exCapture_def getSession_def store_get_def)
  have h2: "\<forall>kc \<in> set (captures oneSessionDb).
           sessionId (snd kc) = sessionId (exCapture ''gone'' 1) \<longrightarrow> sequenceNum (snd kc) \<noteq> sequenceNum (exCapture ''gone'' 1)"
    by (simp add: oneSessionDb_def emptyDb_def)
  from saveCapture_orphan [OF h1 h2, of 1000] h1 show ?thesis
    by (simp add: oneSessionDb_def emptyDb_def exCapture_def)
qed

subsection \<open>deleteSession\<close>

lemma store_get_filter: "store_get key k (filter (\<lambda>x. key x \<noteq> k) xs) = None"
  by (induction xs) (auto simp: store_get_def)

text \<open>
  C9. When \<open>deleteSession k\<close> resolves, the session record, every capture whose
  \<open>sessionId\<close> is \<open>k\<close> and the publish-state record keyed by \<open>k\<close> are gone, all in the one
  step from \<open>d\<close> to \<open>d'\<close>; the records of other sessions are kept. (A rejected call returns
  no new state.)
\<close>

theorem deleteSession_cascade:
  assumes "deleteSession k t d = Inr d'"
  shows "getSession k d' = None \<and> getPublishState k d' = None \<and> capturesOf k d' = []
       \<and> (\<forall>s \<in> set (sessions d'). sid s \<noteq> k)
       \<and> (\<forall>kc \<in> set (captures d'). sessionId (snd kc) \<noteq> k)
       \<and> (\<forall>p \<in> set (publishState d'). ps_sessionId p \<noteq> k)
       \<and> sessions d' = filter (\<lambda>s. sid s \<noteq> k) (sessions d)
       \<and> captures d' = filter (\<lambda>kc. sessionId (snd kc) \<noteq> k) (captures d)
       \<and> publishState d' = filter (\<lambda>p. ps_sessionId p \<noteq> k) (publishState d)
       \<and> keyGen d' = keyGen d"
  using assms
  by (auto simp: deleteSession_def getSession_def getPublishState_def capturesOf_def
      store_get_filter store_delete_def filter_empty_conv split: txn.splits)

theorem deleteSession_cascade_witness:
  "deleteSession ''s1'' Commit fullDb = Inr afterDeleteDb
   \<and> getSession ''s1'' afterDeleteDb = None \<and> getPublishState ''s1'' afterDeleteDb = None
   \<and> capturesOf ''s1'' afterDeleteDb = []"
proof -
  have h: "deleteSession ''s1'' Commit fullDb = Inr afterDeleteDb"
    by (simp add: deleteSession_def fullDb_def afterDeleteDb_def store_delete_def exSession_def
        exCapture_def)
  from deleteSession_cascade [OF h] h show ?thesis by blast
qed

subsection \<open>Recovery\<close>

lemma findSequenceGaps_zip:
  "findSequenceGaps cs =
     map mkGap (filter (\<lambda>p. sequenceNum (snd (snd p)) \<noteq> sequenceNum (snd (fst p)) + 1) (zip cs (tl cs)))"
  by (induction cs rule: findSequenceGaps.induct) (auto simp: mkGap_def Let_def)

lemma foldl_missing: "foldl (\<lambda>sum g. sum + missing g) a gs = a + sum_list (map missing gs)"
  by (induction gs arbitrary: a) auto

lemma sid_recoverSession [simp]: "sid (recoverSession s cs) = sid s"
  by (simp add: recoverSession_def Let_def)

lemma getSessionCaptures_updateSession [simp]:
  "getSessionCaptures k (updateSession s d) = getSessionCaptures k d"
  by (simp add: getSessionCaptures_def updateSession_def)

lemma recoverLoop_result:
  "recoverLoop ss d = (res, d') \<Longrightarrow>
     res = map (\<lambda>s. recoverSession s (getSessionCaptures (sid s) d)) ss
     \<and> captures d' = captures d \<and> publishState d' = publishState d
     \<and> (\<forall>k. k \<notin> sid ` set ss \<longrightarrow> getSession k d' = getSession k d)"
proof (induction ss arbitrary: d res d')
  case Nil
  then show ?case by simp
next
  case (Cons s ss)
  obtain rest d2 where r: "recoverLoop ss (updateSession (recoverSession s (getSessionCaptures (sid s) d)) d) = (rest, d2)"
    by (cases "recoverLoop ss (updateSession (recoverSession s (getSessionCaptures (sid s) d)) d)")
  from Cons.IH [OF r] Cons.prems r show ?case
    by (auto simp: Let_def getSession_def updateSession_def store_get_put_other getSessionCaptures_def)
qed

lemma recoverLoop_persisted:
  "recoverLoop ss d = (res, d') \<Longrightarrow> distinct (map sid ss) \<Longrightarrow> s \<in> set ss \<Longrightarrow>
     getSession (sid s) d' = Some (recoverSession s (getSessionCaptures (sid s) d))"
proof (induction ss arbitrary: d res d')
  case Nil
  then show ?case by simp
next
  case (Cons x ss)
  let ?d1 = "updateSession (recoverSession x (getSessionCaptures (sid x) d)) d"
  obtain rest d2 where r: "recoverLoop ss ?d1 = (rest, d2)"
    by (cases "recoverLoop ss ?d1")
  with Cons.prems have d2: "d' = d2" by (simp add: Let_def)
  show ?case
  proof (cases "s \<in> set ss")
    case True
    with Cons.IH [OF r] Cons.prems d2 show ?thesis by auto
  next
    case False
    with Cons.prems have sx: "s = x" by simp
    from Cons.prems sx have "sid x \<notin> sid ` set ss" by auto
    with recoverLoop_result [OF r] have "getSession (sid x) d2 = getSession (sid x) ?d1" by blast
    then show ?thesis using sx d2
      by (simp add: getSession_def updateSession_def store_get_put_same)
  qed
qed

lemma distinct_active:
  "distinct (map sid (sessions d)) \<Longrightarrow> distinct (map sid (getSessionsByStatus [Recording, Publishing] d))"
proof -
  assume dist: "distinct (map sid (sessions d))"
  have disj: "set (map sid (filter (\<lambda>x. status x = Recording) (sessions d)))
        \<inter> set (map sid (filter (\<lambda>x. status x = Publishing) (sessions d))) = {}"
  proof (rule ccontr)
    assume "\<not> ?thesis"
    then obtain a b where ab: "a \<in> set (sessions d)" "b \<in> set (sessions d)"
      "status a = Recording" "status b = Publishing" "sid a = sid b" by auto
    from dist have "inj_on sid (set (sessions d))" by (simp add: distinct_map)
    with ab have "a = b" by (auto dest: inj_onD)
    with ab show False by simp
  qed
  from dist disj show ?thesis
    by (simp add: getSessionsByStatus_def distinct_map_filter)
qed

lemma sorted_getSessionCaptures:
  "sorted (map (\<lambda>kc. sequenceNum (snd kc)) (getSessionCaptures k d))"
  by (simp add: getSessionCaptures_def)

lemma set_getSessionCaptures:
  "set (getSessionCaptures k d) = {kc \<in> set (captures d). sessionId (snd kc) = k}"
  by (auto simp: getSessionCaptures_def)

text \<open>
  C6, as the code has it. For every session that the store holds with status
  \<open>recording\<close> or \<open>publishing\<close>, the scan loads its captures sorted by \<open>sequenceNum\<close>,
  computes one gap \<open>{after, before, missing = before - after - 1}\<close> for each adjacent pair
  whose second number is not the first plus one, sets the status to \<open>paused\<close>, writes the
  session back and returns it. \<open>recoveryInfo\<close> (the sum of the gap sizes, the last
  capture's timestamp, the gaps) is attached only when at least one gap was found;
  otherwise the session's \<open>recoveryInfo\<close> is left as it was.
\<close>

theorem checkForRecovery_amended:
  assumes "distinct (map sid (sessions d))"
    and "s \<in> set (sessions d)"
    and "status s = Recording \<or> status s = Publishing"
    and "checkForRecovery d = (res, d')"
    and "cs = getSessionCaptures (sid s) d"
    and "gs = findSequenceGaps cs"
    and "s' = recoverSession s cs"
  shows "s' \<in> set res \<and> getSession (sid s) d' = Some s' \<and> status s' = Paused
       \<and> sorted (map (\<lambda>kc. sequenceNum (snd kc)) cs)
       \<and> set cs = {kc \<in> set (captures d). sessionId (snd kc) = sid s}
       \<and> gs = map mkGap (filter (\<lambda>p. sequenceNum (snd (snd p)) \<noteq> sequenceNum (snd (fst p)) + 1) (zip cs (tl cs)))
       \<and> recoveryInfo s' =
           (if gs = [] then recoveryInfo s
            else Some \<lparr> potentialMissedFrames = sum_list (map missing gs),
                        ri_lastCaptureTime = Some (timestamp (snd (last cs))),
                        gaps = gs \<rparr>)
       \<and> s' = s\<lparr>recoveryInfo := recoveryInfo s', status := Paused\<rparr>"
proof -
  let ?act = "getSessionsByStatus [Recording, Publishing] d"
  from assms(2,3) have mem: "s \<in> set ?act" by (auto simp: getSessionsByStatus_def)
  from assms(4) have rl: "recoverLoop ?act d = (res, d')" by (simp add: checkForRecovery_def)
  from recoverLoop_result [OF rl] mem assms(5,7) have 1: "s' \<in> set res" by auto
  from recoverLoop_persisted [OF rl distinct_active [OF assms(1)] mem] assms(5,7)
  have 2: "getSession (sid s) d' = Some s'" by simp
  have 3: "status s' = Paused" using assms(7) by (simp add: recoverSession_def Let_def)
  have 4: "sorted (map (\<lambda>kc. sequenceNum (snd kc)) cs)" using assms(5) by (simp add: sorted_getSessionCaptures)
  have 5: "set cs = {kc \<in> set (captures d). sessionId (snd kc) = sid s}"
    using assms(5) by (simp add: set_getSessionCaptures)
  have 6: "gs = map mkGap (filter (\<lambda>p. sequenceNum (snd (snd p)) \<noteq> sequenceNum (snd (fst p)) + 1) (zip cs (tl cs)))"
    using assms(6) by (simp add: findSequenceGaps_zip)
  have ne: "gs \<noteq> [] \<Longrightarrow> cs \<noteq> []" using assms(6) by auto
  have 7: "recoveryInfo s' =
           (if gs = [] then recoveryInfo s
            else Some \<lparr> potentialMissedFrames = sum_list (map missing gs),
                        ri_lastCaptureTime = Some (timestamp (snd (last cs))),
                        gaps = gs \<rparr>)"
    using assms(6,7) ne by (auto simp: recoverSession_def Let_def foldl_missing)
  have 8: "s' = s\<lparr>recoveryInfo := recoveryInfo s', status := Paused\<rparr>"
    using assms(7) by (simp add: recoverSession_def Let_def)
  from 1 2 3 4 5 6 7 8 show ?thesis by blast
qed


text \<open>
  C6, as stated, fails for a session without gaps: with captures 1 and 2 the recovered
  session carries no \<open>recoveryInfo\<close>.
\<close>

theorem checkForRecovery_counterexample:
  "checkForRecovery noGapDb =
     ([(exSession ''s1'' Recording)\<lparr>status := Paused\<rparr>],
      noGapDb\<lparr>sessions := [(exSession ''s1'' Recording)\<lparr>status := Paused\<rparr>]\<rparr>)
   \<and> recoveryInfo ((exSession ''s1'' Recording)\<lparr>status := Paused\<rparr>) = None"
  by (simp add: checkForRecovery_def getSessionsByStatus_def noGapDb_def exSession_def exCapture_def
      getSessionCaptures_def recoverSession_def updateSession_def Let_def)

theorem checkForRecovery_amended_witness:
  "distinct (map sid (sessions gapDb)) \<and> exSession ''s1'' Recording \<in> set (sessions gapDb)
   \<and> status (exSession ''s1'' Recording) = Recording
   \<and> findSequenceGaps (getSessionCaptures ''s1'' gapDb) = [\<lparr> after = 2, before = 4, missing = 1 \<rparr>]
   \<and> checkForRecovery gapDb = ([recoveredGapSession], gapDb\<lparr>sessions := [recoveredGapSession]\<rparr>)
   \<and> getSession ''s1'' (gapDb\<lparr>sessions := [recoveredGapSession]\<rparr>) = Some recoveredGapSession"
proof -
  have h1: "distinct (map sid (sessions gapDb))" by (simp add: gapDb_def)
  have h2: "exSession ''s1'' Recording \<in> set (sessions gapDb)" by (simp add: gapDb_def)
  have h3: "status (exSession ''s1'' Recording) = Recording \<or> status (exSession ''s1'' Recording) = Publishing"
    by (simp add: exSession_def)
  have g: "findSequenceGaps (getSessionCaptures ''s1'' gapDb) = [\<lparr> after = 2, before = 4, missing = 1 \<rparr>]"
    by (simp add: gapDb_def getSessionCaptures_def exCapture_def Let_def)
  have r: "recoverSession (exSession ''s1'' Recording) (getSessionCaptures (sid (exSession ''s1'' Recording)) gapDb)
             = recoveredGapSession"
    by (simp add: recoveredGapSession_def recoverSession_def gapDb_def getSessionCaptures_def
        exCapture_def exSession_def Let_def)
  have h4: "checkForRecovery gapDb = ([recoveredGapSession], gapDb\<lparr>sessions := [recoveredGapSession]\<rparr>)"
    by (simp add: checkForRecovery_def getSessionsByStatus_def gapDb_def exSession_def exCapture_def
        getSessionCaptures_def recoverSession_def updateSession_def Let_def recoveredGapSession_def)
  from checkForRecovery_amended [OF h1 h2 h3 h4 refl refl refl] r
  have "getSession ''s1'' (gapDb\<lparr>sessions := [recoveredGapSession]\<rparr>) = Some recoveredGapSession"
    by (simp add: exSession_def)
  with h1 h2 h3 g h4 show ?thesis by (simp add: exSession_def)
qed

section \<open>Properties of the publisher\<close>

subsection \<open>Strings\<close>

lemma str_includes_sublist: "str_includes xs sub = sublist sub xs"
  by (induction xs) (auto simp: sublist_Cons_right)

lemma str_includes_iff: "str_includes xs sub = (\<exists>ps ss. xs = ps @ sub @ ss)"
  by (simp add: str_includes_sublist sublist_def)

lemma str_includes_joinWith: "r \<in> set errs \<Longrightarrow> str_includes (joinWith sep errs) r"
proof (induction sep errs rule: joinWith.induct)
  case (1 sep)
  then show ?case by simp
next
  case (2 sep x)
  then have "x = [] @ r @ []" by simp
  then show ?case unfolding joinWith.simps str_includes_iff by blast
next
  case (3 sep x y ys)
  show ?case
  proof (cases "r = x")
    case True
    then have "x @ sep @ joinWith sep (y # ys) = [] @ r @ (sep @ joinWith sep (y # ys))" by simp
    then show ?thesis unfolding joinWith.simps str_includes_iff by blast
  next
    case False
    with 3 have "str_includes (joinWith sep (y # ys)) r" by simp
    then obtain ps ss where "joinWith sep (y # ys) = ps @ r @ ss"
      unfolding str_includes_iff by blast
    then have "x @ sep @ joinWith sep (y # ys) = (x @ sep @ ps) @ r @ ss" by simp
    then show ?thesis unfolding joinWith.simps str_includes_iff by blast
  qed
qed

subsection \<open>Requests\<close>

lemma serve_world:
  assumes "serve rq w = (r, w1)"
  shows "account w1 = account w \<and> requests w1 = requests w \<and> faults w1 = faults w
     \<and> delays w1 = delays w \<and> debug w1 = debug w
     \<and> ((\<forall>p c s m. rq \<noteq> PutContents p c s m) \<longrightarrow> files w1 = files w)"
proof (cases rq)
  case GetUser
  with assms show ?thesis by (auto simp: serve_def split: if_splits)
next
  case GetRepo
  with assms show ?thesis by (auto simp: serve_def split: if_splits)
next
  case GetRateLimit
  with assms show ?thesis by (auto simp: serve_def)
next
  case (GetContents p)
  with assms show ?thesis by (auto simp: serve_def split: option.splits)
next
  case (PutContents p c s m)
  with assms show ?thesis by (auto simp: serve_def split: option.splits if_splits)
next
  case GetRawIndex
  with assms show ?thesis by (auto simp: serve_def split: option.splits)
qed

lemma fetch_world:
  assumes "fetch rq w = (r, w1)"
  shows "account w1 = account w \<and> requests w1 = requests w @ [rq] \<and> faults w1 = tl (faults w)
       \<and> delays w1 = delays w \<and> debug w1 = debug w
       \<and> ((\<forall>p c s m. rq \<noteq> PutContents p c s m) \<longrightarrow> files w1 = files w)"
proof (cases "case faults w of [] \<Rightarrow> NoFault | f # fs \<Rightarrow> f")
  case NoFault
  with assms have "serve rq (w\<lparr>faults := tl (faults w), requests := requests w @ [rq]\<rparr>) = (r, w1)"
    by (simp add: fetch_def Let_def)
  from serve_world [OF this] show ?thesis by simp
next
  case (HttpError st m)
  with assms show ?thesis by (auto simp: fetch_def Let_def)
next
  case (NetworkError m)
  with assms show ?thesis by (auto simp: fetch_def Let_def)
qed





subsection \<open>Validation\<close>


lemma validate_errors:
  assumes "validateGitHubAccess cfg w = ((valid, errors), w1)"
  shows "valid = (errors = [])"
  using assms
  by (auto simp: validateGitHubAccess_def Let_def split: prod.splits response.splits if_splits body.splits)








subsection \<open>Uploading one image\<close>

lemma fetch_GetContents_200:
  assumes "fetch (GetContents p) w = (Response 200 b, w1)"
  shows "\<exists>content. files w p = Some content \<and> b = ContentBody (blobSha content) (downloadUrlOf p)"
  using assms
  by (auto simp: fetch_def serve_def Let_def ok_def split: list.splits fault.splits option.splits if_splits)

lemma fetch_GetContents_answered:
  assumes "faults w = [] \<or> hd (faults w) = NoFault" and "files w p = Some content"
  shows "fetch (GetContents p) w =
           (Response 200 (ContentBody (blobSha content) (downloadUrlOf p)),
            w\<lparr>faults := tl (faults w), requests := requests w @ [GetContents p]\<rparr>)"
  using assms by (cases "faults w") (auto simp: fetch_def serve_def Let_def)

lemma fileExists_answered:
  assumes "faults w = [] \<or> hd (faults w) = NoFault" and "files w p = Some content"
  shows "fileExists cfg p w =
           (\<lparr> ex_exists = True, ex_sha = Some (blobSha content),
              ex_downloadUrl = Some (downloadUrlOf p), ex_error = None \<rparr>,
            w\<lparr>faults := tl (faults w), requests := requests w @ [GetContents p]\<rparr>)"
  by (simp add: fileExists_def fetch_GetContents_answered [OF assms])

lemma fileExists_files:
  assumes "fileExists cfg p w = (ex, w1)"
  shows "files w1 = files w \<and> (ex_exists ex \<longrightarrow> files w p \<noteq> None)"
proof -
  obtain r u where f: "fetch (GetContents p) w = (r, u)" by (cases "fetch (GetContents p) w")
  from fetch_world [OF f] have fu: "files u = files w" by simp
  show ?thesis
  proof (cases r)
    case (Response st b)
    show ?thesis
    proof (cases "st = 200")
      case True
      with f Response fetch_GetContents_200 [of p w b u] have "files w p \<noteq> None" by auto
      with assms f Response True fu show ?thesis
        by (auto simp: fileExists_def split: body.splits)
    next
      case False
      with assms f Response fu show ?thesis by (auto simp: fileExists_def)
    qed
  next
    case (Rejected m)
    with assms f fu show ?thesis by (auto simp: fileExists_def)
  qed
qed

lemma serve_files_mono:
  assumes "serve rq w = (r, w1)" and "files w p \<noteq> None"
  shows "files w1 p \<noteq> None"
proof (cases "\<exists>q c s m. rq = PutContents q c s m")
  case True
  with assms show ?thesis by (auto simp: serve_def split: option.splits if_splits)
next
  case False
  with serve_world [OF assms(1)] assms(2) show ?thesis by auto
qed

lemma fetch_files_mono:
  assumes "fetch rq w = (r, w1)" and "files w p \<noteq> None"
  shows "files w1 p \<noteq> None"
proof (cases "case faults w of [] \<Rightarrow> NoFault | f # fs \<Rightarrow> f")
  case NoFault
  with assms have "serve rq (w\<lparr>faults := tl (faults w), requests := requests w @ [rq]\<rparr>) = (r, w1)"
    by (simp add: fetch_def Let_def)
  from serve_files_mono [OF this] assms(2) show ?thesis by simp
next
  case (HttpError st m)
  with assms show ?thesis by (auto simp: fetch_def Let_def)
next
  case (NetworkError m)
  with assms show ?thesis by (auto simp: fetch_def Let_def)
qed

lemma fetch_Put_ok:
  assumes "fetch (PutContents p c s m) w = (Response st b, w1)" and "ok st"
  shows "files w1 p = Some c"
  using assms
  by (auto simp: fetch_def serve_def Let_def ok_def split: list.splits fault.splits option.splits if_splits)

lemma uploadFile_ok:
  assumes "uploadFile cfg p c m s w = (Inr res, w1)"
  shows "files w1 p = Some c"
proof -
  let ?s = "case s of None \<Rightarrow> None | Some x \<Rightarrow> if x = [] then None else Some x"
  obtain r u where f: "fetch (PutContents p c ?s m) w = (r, u)"
    by (cases "fetch (PutContents p c ?s m) w")
  show ?thesis
  proof (cases r)
    case (Rejected e)
    with assms f show ?thesis by (simp add: uploadFile_def)
  next
    case (Response st b)
    show ?thesis
    proof (cases "ok st")
      case True
      with assms f Response have "w1 = u" by (simp add: uploadFile_def)
      with fetch_Put_ok f Response True show ?thesis by blast
    next
      case False
      obtain ex u2 where e: "fileExists cfg p u = (ex, u2)" by (cases "fileExists cfg p u")
      obtain r3 u3 where f3: "fetch (PutContents p c (ex_sha ex) m) u2 = (r3, u3)"
        by (cases "fetch (PutContents p c (ex_sha ex) m) u2")
      from assms f Response False e f3 obtain st3 b3 where "r3 = Response st3 b3" "ok st3" "w1 = u3"
        by (auto simp: uploadFile_def split: if_splits response.splits)
      with fetch_Put_ok f3 show ?thesis by blast
    qed
  qed
qed

lemma uploadImage_ok:
  assumes "uploadImage cfgo c k w = (Inr r, w1)"
  shows "files w1 (imagePath k (sequenceNum c)) \<noteq> None"
proof -
  let ?p = "imagePath k (sequenceNum c)"
  from assms obtain cfg where cfg: "cfgo = Some cfg"
    by (cases cfgo) (auto simp: uploadImage_def Let_def split: if_splits)
  obtain ex u where e: "fileExists cfg ?p w = (ex, u)" by (cases "fileExists cfg ?p w")
  from fileExists_files [OF e] have fu: "files u = files w" "ex_exists ex \<longrightarrow> files w ?p \<noteq> None"
    by simp_all
  show ?thesis
  proof (cases "ex_exists ex")
    case True
    with assms cfg e have "w1 = u"
      by (auto simp: uploadImage_def Let_def split: if_splits)
    with fu True show ?thesis by simp
  next
    case False
    with assms cfg e obtain b m res where "uploadFile cfg ?p b m None u = (Inr res, w1)"
      by (auto simp: uploadImage_def Let_def split: if_splits sum.splits prod.splits)
    from uploadFile_ok [OF this] show ?thesis by simp
  qed
qed

text \<open>
  C2, as the code has it. For a capture that has an image payload (\<open>imageData\<close>, or a
  non-empty \<open>imageBlob\<close>), when the existence probe for its remote path is answered by the
  server and the path has content, \<open>uploadImage\<close> issues the probe and nothing else (no
  write; the remote files are unchanged) and returns \<open>skipped = true\<close> with the file's
  download URL. The path has content in particular right after a successful
  \<open>uploadImage\<close> of the same capture, so the second of two uploads reports skipped.
\<close>

theorem uploadImage_skips:
  assumes "hasImageData c \<or> hasImageBlob c"
    and "faults w = [] \<or> hd (faults w) = NoFault"
    and "files w (imagePath k (sequenceNum c)) \<noteq> None
         \<or> (\<exists>w0 r. uploadImage (Some cfg) c k w0 = (Inr r, w))"
  shows "uploadImage (Some cfg) c k w =
           (Inr (Some (downloadUrlOf (imagePath k (sequenceNum c))), True),
            w\<lparr>faults := tl (faults w),
              requests := requests w @ [GetContents (imagePath k (sequenceNum c))]\<rparr>)"
proof -
  from assms(3) uploadImage_ok obtain content
    where "files w (imagePath k (sequenceNum c)) = Some content" by blast
  from fileExists_answered [OF assms(2) this] assms(1) show ?thesis
    by (simp add: uploadImage_def Let_def)
qed

lemma imagePath_s1_1: "imagePath ''s1'' 1 = ''sessions/s1/images/000001.jpg''"
  by code_simp

lemma uploadImage_first:
  "uploadImage (Some exConfig) (exCapture ''s1'' 1) ''s1'' (exWorld 5000) =
     (Inr (Some ''https://raw.githubusercontent.com/sessions/s1/images/000001.jpg'', False),
      afterUploadWorld)"
  by (simp add: uploadImage_def imagePath_s1_1 exCapture_def hasImageData_def hasImageBlob_def
      fileExists_def uploadFile_def fetch_def serve_def exWorld_def afterUploadWorld_def Let_def
      ok_def contentOf_def blobSha_def downloadUrlOf_def toString_def digits.simps)

theorem uploadImage_skips_witness:
  "hasImageBlob (exCapture ''s1'' 1) \<and> faults afterUploadWorld = []
   \<and> uploadImage (Some exConfig) (exCapture ''s1'' 1) ''s1'' (exWorld 5000) =
       (Inr (Some ''https://raw.githubusercontent.com/sessions/s1/images/000001.jpg'', False),
        afterUploadWorld)
   \<and> uploadImage (Some exConfig) (exCapture ''s1'' 1) ''s1'' afterUploadWorld =
       (Inr (Some ''https://raw.githubusercontent.com/sessions/s1/images/000001.jpg'', True),
        afterUploadWorld\<lparr>requests := requests afterUploadWorld
                            @ [GetContents ''sessions/s1/images/000001.jpg'']\<rparr>)"
proof -
  have h1: "hasImageData (exCapture ''s1'' 1) \<or> hasImageBlob (exCapture ''s1'' 1)"
    by (simp add: hasImageBlob_def exCapture_def)
  have h2: "faults afterUploadWorld = [] \<or> hd (faults afterUploadWorld) = NoFault"
    by (simp add: afterUploadWorld_def exWorld_def)
  have h3: "files afterUploadWorld (imagePath ''s1'' (sequenceNum (exCapture ''s1'' 1))) \<noteq> None
         \<or> (\<exists>w0 r. uploadImage (Some exConfig) (exCapture ''s1'' 1) ''s1'' w0 = (Inr r, afterUploadWorld))"
    using uploadImage_first by blast
  have e: "sequenceNum (exCapture ''s1'' 1) = 1" by (simp add: exCapture_def)
  from uploadImage_skips [OF h1 h2 h3] uploadImage_first h1 h2
  show ?thesis
    by (simp add: e imagePath_s1_1 downloadUrlOf_def afterUploadWorld_def exWorld_def
        hasImageData_def exCapture_def)
qed

text \<open>
  C2, as stated, fails in two ways although the path has content: a capture without
  payload is rejected with an error before the probe, and when the probe is answered with
  an error status the file is taken as absent and written again (the \<open>PUT\<close> is repeated
  with the identity found), with \<open>skipped = false\<close>.
\<close>

theorem uploadImage_counterexample:
  "files imageWorld (imagePath ''s1'' 1) = Some ''QUJD''
   \<and> uploadImage (Some exConfig) noPayloadCapture ''s1'' imageWorld
       = (Inl (Error ''Capture #1 has no valid image data''), imageWorld)
   \<and> fst (uploadImage (Some exConfig) (exCapture ''s1'' 1) ''s1''
            (imageWorld\<lparr>faults := [HttpError 500 ''Server Error'']\<rparr>))
       = Inr (Some ''https://raw.githubusercontent.com/sessions/s1/images/000001.jpg'', False)
   \<and> requests (snd (uploadImage (Some exConfig) (exCapture ''s1'' 1) ''s1''
            (imageWorld\<lparr>faults := [HttpError 500 ''Server Error'']\<rparr>)))
       = [GetContents ''sessions/s1/images/000001.jpg'',
          PutContents ''sessions/s1/images/000001.jpg'' ''QUJD'' None ''Upload image 1'',
          GetContents ''sessions/s1/images/000001.jpg'',
          PutContents ''sessions/s1/images/000001.jpg'' ''QUJD'' (Some ''sha:QUJD'')
            ''Upload image 1'']"
  by (simp add: uploadImage_def imagePath_s1_1 exCapture_def noPayloadCapture_def
      hasImageData_def hasImageBlob_def imageWorld_def toString_def digits.simps
      fileExists_def uploadFile_def fetch_def serve_def exWorld_def Let_def
      ok_def contentOf_def blobSha_def downloadUrlOf_def errorMessage_def orElse_def)

text \<open>
  The two guards around the probe, for every capture and every remote: a capture without
  payload is rejected before any request is issued, and a probe that is rejected or
  answered with a status other than 200 reports the file as absent.
\<close>

lemma uploadImage_no_payload:
  assumes "\<not> hasImageData c" and "\<not> hasImageBlob c"
  shows "uploadImage cfgo c k w =
           (Inl (Error (''Capture #'' @ toString (sequenceNum c) @ '' has no valid image data'')), w)"
  using assms by (simp add: uploadImage_def)

lemma fileExists_absent:
  assumes "fetch (GetContents p) w = (r, w1)"
    and "case r of Rejected m \<Rightarrow> True | Response st b \<Rightarrow> st \<noteq> 200"
  shows "\<not> ex_exists (fst (fileExists cfg p w)) \<and> snd (fileExists cfg p w) = w1"
  using assms by (auto simp: fileExists_def split: response.splits)

subsection \<open>Cancel\<close>






subsection \<open>Retry policy\<close>

lemma only_events_trans:
  "b = a\<lparr>events := events b\<rparr> \<Longrightarrow> c = b\<lparr>events := events c\<rparr> \<Longrightarrow> c = a\<lparr>events := events c\<rparr>"
  for a b c :: publisher
  by (cases a, cases b, cases c) simp

lemma reportProgress_running:
  "isPublishing st \<or> \<not> onProgress st \<Longrightarrow>
     \<exists>st'. reportProgress t st = Inr st' \<and> st' = st\<lparr>events := events st'\<rparr>"
  by (auto simp: reportProgress_def)

lemma reportProgress_state:
  "reportProgress t st = Inr st' \<Longrightarrow> st' = st\<lparr>events := events st'\<rparr>"
  by (auto simp: reportProgress_def split: if_splits)

lemma fileExists_world:
  assumes "fileExists cfg p w = (ex, w1)"
  shows "delays w1 = delays w \<and> debug w1 = debug w \<and> account w1 = account w"
proof -
  obtain r u where f: "fetch (GetContents p) w = (r, u)" by (cases "fetch (GetContents p) w")
  from fetch_world [OF f] have "delays u = delays w \<and> debug u = debug w \<and> account u = account w"
    by simp
  moreover from assms f have "w1 = u"
    by (auto simp: fileExists_def split: response.splits if_splits body.splits)
  ultimately show ?thesis by simp
qed

lemma uploadFile_world:
  assumes "uploadFile cfg p c m s w = (r, w1)"
  shows "delays w1 = delays w \<and> debug w1 = debug w \<and> account w1 = account w"
proof -
  let ?s = "case s of None \<Rightarrow> None | Some x \<Rightarrow> if x = [] then None else Some x"
  obtain r1 u1 where f1: "fetch (PutContents p c ?s m) w = (r1, u1)"
    by (cases "fetch (PutContents p c ?s m) w")
  obtain ex u2 where e: "fileExists cfg p u1 = (ex, u2)" by (cases "fileExists cfg p u1")
  obtain r3 u3 where f3: "fetch (PutContents p c (ex_sha ex) m) u2 = (r3, u3)"
    by (cases "fetch (PutContents p c (ex_sha ex) m) u2")
  have g1: "delays u1 = delays w \<and> debug u1 = debug w \<and> account u1 = account w"
    using fetch_world [OF f1] by simp
  have g2: "delays u2 = delays u1 \<and> debug u2 = debug u1 \<and> account u2 = account u1"
    using fileExists_world [OF e] by simp
  have g3: "delays u3 = delays u2 \<and> debug u3 = debug u2 \<and> account u3 = account u2"
    using fetch_world [OF f3] by simp
  have "w1 = u1 \<or> w1 = u2 \<or> w1 = u3"
    using assms f1 e f3
    by (auto simp: uploadFile_def split: response.splits if_splits)
  with g1 g2 g3 show ?thesis by auto
qed

lemma uploadImage_world:
  assumes "uploadImage cfgo c k w = (r, w1)"
  shows "delays w1 = delays w \<and> debug w1 = debug w \<and> account w1 = account w"
proof (cases cfgo)
  case None
  with assms show ?thesis by (auto simp: uploadImage_def Let_def split: if_splits)
next
  case (Some cfg)
  let ?p = "imagePath k (sequenceNum c)"
  obtain ex u where e: "fileExists cfg ?p w = (ex, u)" by (cases "fileExists cfg ?p w")
  have g1: "delays u = delays w \<and> debug u = debug w \<and> account u = account w"
    using fileExists_world [OF e] by simp
  have "w1 = w \<or> w1 = u \<or> (\<exists>b m rr. uploadFile cfg ?p b m None u = (rr, w1))"
    using assms Some e
    by (auto simp: uploadImage_def Let_def split: if_splits sum.splits prod.splits)
  with g1 uploadFile_world show ?thesis by metis
qed

lemma tryUpload_world:
  assumes "tryUpload kc st w = (r, w1)"
  shows "delays w1 = delays w \<and> debug w1 = debug w \<and> account w1 = account w"
  using assms uploadImage_world by (auto simp: tryUpload_def split: option.splits)

lemma uploadAttempts_trace:
  assumes "m + 1 - a = n" and "isPublishing st \<or> \<not> onProgress st"
    and "uploadAttempts a m l kc st w = (r, st', w')"
  shows "st' = st\<lparr>events := events st'\<rparr>
       \<and> (\<exists>es. debug w' = debug w @ es
             \<and> map attemptOf es = [a ..< a + length es]
             \<and> delays w' = delays w @ List.map_filter (retryWait m) es
             \<and> (case r of
                   Inr res \<Rightarrow> a + length es \<le> m
                 | Inl e \<Rightarrow> a + length es = max a (m + 1)
                     \<and> (if es = [] then e = (case l of None \<Rightarrow> Error ''Upload failed after all retries'' | Some x \<Rightarrow> x)
                         else messageOf e = failureOf (last es))))"
  using assms
proof (induction n arbitrary: a l st w)
  case 0
  then have "\<not> a \<le> m" by simp
  with 0(3) have "r = Inl (case l of None \<Rightarrow> Error ''Upload failed after all retries'' | Some x \<Rightarrow> x)
      \<and> st' = st \<and> w' = w"
    by (simp add: uploadAttempts.simps [of a m l kc st w])
  with \<open>\<not> a \<le> m\<close> have "debug w' = debug w @ [] \<and> map attemptOf [] = [a ..< a + length ([] :: debug_entry list)]
      \<and> delays w' = delays w @ List.map_filter (retryWait m) []
      \<and> (case r of Inr res \<Rightarrow> a + length ([] :: debug_entry list) \<le> m
          | Inl e \<Rightarrow> a + length ([] :: debug_entry list) = max a (m + 1)
              \<and> (if ([] :: debug_entry list) = [] then e = (case l of None \<Rightarrow> Error ''Upload failed after all retries'' | Some x \<Rightarrow> x)
                  else messageOf e = failureOf (last [])))"
    by (auto simp: List.map_filter_simps)
  moreover from \<open>r = _ \<and> st' = st \<and> w' = w\<close> have "st' = st\<lparr>events := events st'\<rparr>" by simp
  ultimately show ?case by blast
next
  case (Suc n)
  then have am: "a \<le> m" by simp
  obtain u w1 where t: "tryUpload kc st w = (u, w1)" by (cases "tryUpload kc st w")
  from tryUpload_world [OF t] have tw: "delays w1 = delays w" "debug w1 = debug w" by simp_all
  show ?case
  proof (cases u)
    case (Inr res)
    with Suc.prems(3) am t have "r = Inr res \<and> st' = st \<and> w' = w1"
      by (simp add: uploadAttempts.simps [of a m l kc st w])
    with tw am have "st' = st\<lparr>events := events st'\<rparr>
      \<and> debug w' = debug w @ [] \<and> map attemptOf [] = [a ..< a + length ([] :: debug_entry list)]
      \<and> delays w' = delays w @ List.map_filter (retryWait m) []
      \<and> (case r of Inr res \<Rightarrow> a + length ([] :: debug_entry list) \<le> m
          | Inl e \<Rightarrow> a + length ([] :: debug_entry list) = max a (m + 1)
              \<and> (if ([] :: debug_entry list) = [] then e = (case l of None \<Rightarrow> Error ''Upload failed after all retries'' | Some x \<Rightarrow> x)
                  else messageOf e = failureOf (last [])))"
      by (auto simp: List.map_filter_simps)
    then show ?thesis by blast
  next
    case (Inl e)
    let ?ent = "AttemptFailed a (messageOf e)"
    let ?w2 = "w1\<lparr>debug := debug w1 @ [?ent]\<rparr>"
    from reportProgress_running [OF Suc.prems(2)] obtain st1
      where rp: "reportProgress (Some ''Rate limited. Waiting...'') st = Inr st1"
        and st1: "st1 = st\<lparr>events := events st1\<rparr>" by blast
    from rp Suc.prems(2) have run1: "isPublishing st1 \<or> \<not> onProgress st1"
      by (auto simp: reportProgress_def split: if_splits)
    let ?stn = "if isRateLimited (messageOf e) then st1 else st"
    let ?wn = "if isRateLimited (messageOf e) then delay 60000 ?w2
               else if a < m then delay (min (1000 * 2 ^ a) 60000) ?w2 else ?w2"
    from Suc.prems(3) am t Inl rp
    have rec: "uploadAttempts (a + 1) m (Some e) kc ?stn ?wn = (r, st', w')"
      by (auto simp: uploadAttempts.simps [of a m l kc st w] split: if_splits)
    have runn: "isPublishing ?stn \<or> \<not> onProgress ?stn" using run1 Suc.prems(2) by simp
    have n: "m + 1 - (a + 1) = n" using Suc.prems(1) by simp
    from Suc.IH [OF n runn rec] obtain es where
      ih1: "st' = ?stn\<lparr>events := events st'\<rparr>"
      and ih2: "debug w' = debug ?wn @ es"
      and ih3: "map attemptOf es = [a + 1 ..< a + 1 + length es]"
      and ih4: "delays w' = delays ?wn @ List.map_filter (retryWait m) es"
      and ih5: "(case r of
                   Inr res \<Rightarrow> a + 1 + length es \<le> m
                 | Inl x \<Rightarrow> a + 1 + length es = max (a + 1) (m + 1)
                     \<and> (if es = [] then x = (case Some e of None \<Rightarrow> Error ''Upload failed after all retries'' | Some y \<Rightarrow> y)
                         else messageOf x = failureOf (last es)))"
      by blast
    have s: "st' = st\<lparr>events := events st'\<rparr>"
    proof (cases "isRateLimited (messageOf e)")
      case True
      with ih1 have "st' = st1\<lparr>events := events st'\<rparr>" by simp
      with st1 show ?thesis by (rule only_events_trans)
    next
      case False
      with ih1 show ?thesis by simp
    qed
    have d: "debug w' = debug w @ (?ent # es)"
      using ih2 tw by (simp add: delay_def)
    have a: "map attemptOf (?ent # es) = [a ..< a + length (?ent # es)]"
    proof -
      have "[a ..< a + length (?ent # es)] = a # [a + 1 ..< a + 1 + length es]"
        by (subst upt_rec) (simp del: upt_Suc)
      with ih3 show ?thesis by (simp add: attemptOf_def del: upt_Suc)
    qed
    have dl: "delays w' = delays w @ List.map_filter (retryWait m) (?ent # es)"
      using ih4 tw by (auto simp: delay_def List.map_filter_simps retryWait_def)
    have c: "(case r of
                   Inr res \<Rightarrow> a + length (?ent # es) \<le> m
                 | Inl x \<Rightarrow> a + length (?ent # es) = max a (m + 1)
                     \<and> (if ?ent # es = [] then x = (case l of None \<Rightarrow> Error ''Upload failed after all retries'' | Some y \<Rightarrow> y)
                         else messageOf x = failureOf (last (?ent # es))))"
      using ih5 am by (auto simp: failureOf_def split: sum.splits)
    from s d a dl c show ?thesis by blast
  qed
qed


text \<open>
  C4, as the code has it. While a job runs, \<open>uploadWithRetry\<close> makes at most 5 attempts:
  the failed ones are numbered 1, 2, ... in the debug log, there are at most 5 of them
  and at most 4 before a success. After a failure classified as rate-limited it waits
  60000 ms, whatever the attempt (also after the 5th); after any other failure it waits
  \<open>min (1000 * 2 ^ attempt) 60000\<close> ms when a further attempt follows, and not at all
  after the 5th (\<open>retryWait\<close>). When it throws, all 5 attempts have failed and the error
  is the last one; the drain loop then counts the capture as failed, takes it off the
  queue without touching the store, and goes on with the rest of the queue.
\<close>

theorem uploadWithRetry_policy:
  assumes "isPublishing st" and "\<not> isPaused st" and "queue st = kc # rest"
    and "reportProgress (Some (''Uploading image '' @ toString (sequenceNum (snd kc)) @ ''...'')) st
           = Inr st1"
    and "uploadWithRetry kc st1 w = (r, st2, w2)"
  shows "\<exists>es. debug w2 = debug w @ es \<and> length es \<le> 5
          \<and> map attemptOf es = [1 ..< 1 + length es]
          \<and> delays w2 = delays w @ List.map_filter (retryWait 5) es
          \<and> (\<forall>res. r = Inr res \<longrightarrow> length es \<le> 4)
          \<and> (\<forall>e. r = Inl e \<longrightarrow>
                length es = 5 \<and> messageOf e = failureOf (last es)
                \<and> drainStep st w d = (True, uploadFailed e kc st2, w2, d)
                \<and> failed (uploadFailed e kc st2) = failed st + 1
                \<and> completed (uploadFailed e kc st2) = completed st
                \<and> queue (uploadFailed e kc st2) = rest
                \<and> drainLoop st w d = drainLoop (uploadFailed e kc st2) w2 d)"
proof -
  from assms(4) have s1: "st1 = st\<lparr>events := events st1\<rparr>" by (rule reportProgress_state)
  from assms(1,4) have run1: "isPublishing st1 \<or> \<not> onProgress st1"
    by (auto simp: reportProgress_def split: if_splits)
  from assms(5) have ua: "uploadAttempts 1 5 None kc st1 w = (r, st2, w2)"
    by (simp add: uploadWithRetry_def)
  have "5 + 1 - 1 = (5 :: nat)" by simp
  from uploadAttempts_trace [OF this run1 ua] obtain es where
    s2: "st2 = st1\<lparr>events := events st2\<rparr>"
    and e1: "debug w2 = debug w @ es"
    and e2: "map attemptOf es = [1 ..< 1 + length es]"
    and e3: "delays w2 = delays w @ List.map_filter (retryWait 5) es"
    and e4: "(case r of
                Inr res \<Rightarrow> 1 + length es \<le> 5
              | Inl e \<Rightarrow> 1 + length es = max 1 (5 + 1)
                  \<and> (if es = [] then e = (case None of None \<Rightarrow> Error ''Upload failed after all retries'' | Some x \<Rightarrow> x)
                      else messageOf e = failureOf (last es)))"
    by blast
  from s1 s2 have s: "st2 = st\<lparr>events := events st2\<rparr>" by (rule only_events_trans)
  have len: "length es \<le> 5" using e4 by (cases r) auto
  have len4: "\<forall>res. r = Inr res \<longrightarrow> length es \<le> 4" using e4 by auto
  have fail: "length es = 5 \<and> messageOf e = failureOf (last es)
                \<and> drainStep st w d = (True, uploadFailed e kc st2, w2, d)
                \<and> failed (uploadFailed e kc st2) = failed st + 1
                \<and> completed (uploadFailed e kc st2) = completed st
                \<and> queue (uploadFailed e kc st2) = rest
                \<and> drainLoop st w d = drainLoop (uploadFailed e kc st2) w2 d"
    if r: "r = Inl e" for e
  proof -
    from e4 r have l5: "length es = 5" by simp
    then have "es \<noteq> []" by auto
    with e4 r have m: "messageOf e = failureOf (last es)" by simp
    have ds: "drainStep st w d = (True, uploadFailed e kc st2, w2, d)"
      using assms(3,4,5) r by (simp add: drainStep_def Let_def)
    have f: "failed st2 = failed st" "completed st2 = completed st" "queue st2 = queue st"
      by (subst s, simp)+
    have u: "failed (uploadFailed e kc st2) = failed st + 1
           \<and> completed (uploadFailed e kc st2) = completed st
           \<and> queue (uploadFailed e kc st2) = rest"
      using f assms(3) by (simp add: uploadFailed_def Let_def)
    have dl: "drainLoop st w d = drainLoop (uploadFailed e kc st2) w2 d"
      using assms(1,2,3) ds by (subst drainLoop.simps) (simp add: Let_def)
    from l5 m ds u dl show ?thesis by blast
  qed
  from e1 len e2 e3 len4 fail show ?thesis by blast
qed


lemma not_rateLimited_corrupt: "\<not> isRateLimited (corruptMessage 1)"
  by (simp add: isRateLimited_def corruptMessage_def toString_def digits.simps)

lemma tryUpload_corrupt:
  "faults w = [] \<Longrightarrow> files w ''sessions/s1/images/000001.jpg'' = None \<Longrightarrow>
   tryUpload (k, corruptCapture ''s1'' 1) (jobState q) w =
     (Inl (Error (corruptMessage 1)),
      w\<lparr>requests := requests w @ [GetContents ''sessions/s1/images/000001.jpg'']\<rparr>)"
  by (simp add: tryUpload_def jobState_def exSession_def uploadImage_def corruptCapture_def
      exCapture_def hasImageData_def hasImageBlob_def imagePath_s1_1 [simplified] fileExists_def
      fetch_def serve_def Let_def toString_def digits.simps corruptMessage_def)

lemma uploadWithRetry_corrupt:
  "uploadWithRetry (k, corruptCapture ''s1'' 1) (jobState q) (exWorld 5000) =
     (Inl (Error (corruptMessage 1)), jobState q, afterRetriesWorld)"
  by (simp add: uploadWithRetry_def uploadAttempts.simps tryUpload_corrupt not_rateLimited_corrupt
      messageOf_def orElse_def delay_def exWorld_def afterRetriesWorld_def)
     (simp add: corruptMessage_def)

text \<open>
  C4, as stated, fails for the last attempt: five failures that are not rate-limited are
  followed by four waits only.
\<close>

theorem uploadWithRetry_counterexample:
  "uploadWithRetry (1, corruptCapture ''s1'' 1) (jobState failingQueue) (exWorld 5000) =
     (Inl (Error (corruptMessage 1)), jobState failingQueue, afterRetriesWorld)
   \<and> \<not> isRateLimited (corruptMessage 1)
   \<and> map attemptOf (debug afterRetriesWorld) = [1, 2, 3, 4, 5]
   \<and> delays afterRetriesWorld = [2000, 4000, 8000, 16000]
   \<and> retryWait 5 (AttemptFailed 5 (corruptMessage 1)) = None"
  by (simp add: uploadWithRetry_corrupt not_rateLimited_corrupt retryWait_def)
     (simp add: afterRetriesWorld_def attemptOf_def)


theorem uploadWithRetry_policy_witness:
  "isPublishing (jobState failingQueue) \<and> \<not> isPaused (jobState failingQueue)
   \<and> queue (jobState failingQueue) = (1, corruptCapture ''s1'' 1) # [(2, exCapture ''s1'' 2)]
   \<and> uploadWithRetry (1, corruptCapture ''s1'' 1) (jobState failingQueue) (exWorld 5000)
       = (Inl (Error (corruptMessage 1)), jobState failingQueue, afterRetriesWorld)
   \<and> drainStep (jobState failingQueue) (exWorld 5000) noGapDb
       = (True, uploadFailed (Error (corruptMessage 1)) (1, corruptCapture ''s1'' 1)
                  (jobState failingQueue), afterRetriesWorld, noGapDb)
   \<and> failed (uploadFailed (Error (corruptMessage 1)) (1, corruptCapture ''s1'' 1)
                (jobState failingQueue)) = 1
   \<and> queue (uploadFailed (Error (corruptMessage 1)) (1, corruptCapture ''s1'' 1)
               (jobState failingQueue)) = [(2, exCapture ''s1'' 2)]"
proof -
  have h1: "isPublishing (jobState failingQueue)" by (simp add: jobState_def)
  have h2: "\<not> isPaused (jobState failingQueue)" by (simp add: jobState_def)
  have h3: "queue (jobState failingQueue) = (1, corruptCapture ''s1'' 1) # [(2, exCapture ''s1'' 2)]"
    by (simp add: jobState_def failingQueue_def)
  have h4: "reportProgress (Some (''Uploading image ''
              @ toString (sequenceNum (snd (1 :: nat, corruptCapture ''s1'' 1))) @ ''...''))
              (jobState failingQueue) = Inr (jobState failingQueue)"
    by (simp add: reportProgress_def jobState_def)
  have h5: "uploadWithRetry (1, corruptCapture ''s1'' 1) (jobState failingQueue) (exWorld 5000)
       = (Inl (Error (corruptMessage 1)), jobState failingQueue, afterRetriesWorld)"
    by (rule uploadWithRetry_corrupt)
  have f0: "failed (jobState failingQueue) = 0" by (simp add: jobState_def)
  from uploadWithRetry_policy [OF h1 h2 h3 h4 h5, of noGapDb] f0
  have "drainStep (jobState failingQueue) (exWorld 5000) noGapDb
       = (True, uploadFailed (Error (corruptMessage 1)) (1, corruptCapture ''s1'' 1)
                  (jobState failingQueue), afterRetriesWorld, noGapDb)
   \<and> failed (uploadFailed (Error (corruptMessage 1)) (1, corruptCapture ''s1'' 1)
                (jobState failingQueue)) = 1
   \<and> queue (uploadFailed (Error (corruptMessage 1)) (1, corruptCapture ''s1'' 1)
               (jobState failingQueue)) = [(2, exCapture ''s1'' 2)]"
    by auto
  with h1 h2 h3 h5 show ?thesis by blast
qed

subsection \<open>Finishing a job\<close>

lemma finishUploads_state:
  assumes "finishUploads docs s st w d = (None, st2, w2)"
  shows "st2 = st\<lparr>events := events st2\<rparr>"
proof -
  from assms obtain st1 where rp: "reportProgress (Some ''Uploading metadata...'') st = Inr st1"
    by (cases "reportProgress (Some ''Uploading metadata...'') st")
       (auto simp: finishUploads_def)
  from assms rp have "st2 = st1"
    by (auto simp: finishUploads_def split: option.splits prod.splits sum.splits)
  with reportProgress_state [OF rp] show ?thesis by simp
qed

text \<open>
  C7. When the drain loop of \<open>processQueue\<close> has emptied the queue of a running job and
  the uploads of the finishing phase succeed, the session is stored with status
  \<open>published\<close> if the failed count is 0 and \<open>partially_published\<close> otherwise, the job flag
  and the lock are cleared, the publish state is stored as finished, and the completion
  callback, when one is registered, is invoked last with \<open>{completed, failed, total}\<close>.
\<close>

theorem processQueue_finishes:
  assumes "\<not> isProcessing st"
    and "drainLoop (st\<lparr>isProcessing := True\<rparr>) w d = (st1, w1, d1)"
    and "queue st1 = []" and "isPublishing st1" and "currentSession st1 = Some s"
    and "finishUploads docs s st1 w1 d1 = (None, st2, w2)"
  shows "\<exists>st' d'. processQueue docs now st w d = (st', w2, d')
           \<and> getSession (sid s) d'
               = Some (s\<lparr>status := (if failed st1 = 0 then Published else PartiallyPublished)\<rparr>)
           \<and> currentSession st'
               = Some (s\<lparr>status := (if failed st1 = 0 then Published else PartiallyPublished)\<rparr>)
           \<and> \<not> isPublishing st' \<and> \<not> isProcessing st'
           \<and> completed st' = completed st1 \<and> failed st' = failed st1 \<and> total st' = total st1
           \<and> events st' = events st2
                 @ (if onComplete st1 then [Complete (completed st1) (failed st1) (total st1)]
                    else [])
           \<and> getPublishState (sid s) d'
               = Some \<lparr> ps_sessionId = sid s, publishStarted = startedAt st1,
                        totalToUpload = total st1, ps_completed = completed st1,
                        ps_failed = failed st1, inProgress = False, completedAt = Some now \<rparr>"
proof -
  let ?s' = "s\<lparr>status := (if failed st1 = 0 then Published else PartiallyPublished)\<rparr>"
  let ?ps = "\<lparr> ps_sessionId = sid s, publishStarted = startedAt st1,
               totalToUpload = total st1, ps_completed = completed st1,
               ps_failed = failed st1, inProgress = False, completedAt = Some now \<rparr>"
  let ?d' = "savePublishState ?ps (updateSession ?s' d1)"
  let ?st3 = "st2\<lparr>currentSession := Some ?s', isPublishing := False\<rparr>"
  let ?st4 = "if onComplete ?st3
              then ?st3\<lparr>events := events ?st3 @ [Complete (completed ?st3) (failed ?st3) (total ?st3)]\<rparr>
              else ?st3"
  from finishUploads_state [OF assms(6)] have s2: "st2 = st1\<lparr>events := events st2\<rparr>" .
  have f: "failed st2 = failed st1" "completed st2 = completed st1" "total st2 = total st1"
    "onComplete st2 = onComplete st1" "startedAt st2 = startedAt st1"
    by (subst s2, simp add: startedAt_def)+
  have fp: "finishPublish docs now st1 w1 d1 = (?st4, w2, ?d')"
    using assms(5,6) f by (simp add: finishPublish_def Let_def)
  have pq: "processQueue docs now st w d = (?st4\<lparr>isProcessing := False\<rparr>, w2, ?d')"
    using assms(1,2,3,4) fp by (simp add: processQueue_def)
  have g: "getSession (sid s) ?d' = Some ?s'"
    by (simp add: getSession_def savePublishState_def updateSession_def store_get_put_same)
  have p: "getPublishState (sid s) ?d' = Some ?ps"
    by (simp add: getPublishState_def savePublishState_def store_get_put_same)
  have r: "currentSession (?st4\<lparr>isProcessing := False\<rparr>) = Some ?s'
         \<and> \<not> isPublishing (?st4\<lparr>isProcessing := False\<rparr>)
         \<and> \<not> isProcessing (?st4\<lparr>isProcessing := False\<rparr>)
         \<and> completed (?st4\<lparr>isProcessing := False\<rparr>) = completed st1
         \<and> failed (?st4\<lparr>isProcessing := False\<rparr>) = failed st1
         \<and> total (?st4\<lparr>isProcessing := False\<rparr>) = total st1
         \<and> events (?st4\<lparr>isProcessing := False\<rparr>) = events st2
                 @ (if onComplete st1 then [Complete (completed st1) (failed st1) (total st1)]
                    else [])"
    using f by simp
  from pq g p r show ?thesis by blast
qed


text \<open>The scenario: three eligible captures, the first fails five times, the other two
  are uploaded.\<close>

lemma scenario_start:
  "startPublish ''s1'' exConfig False True True 1000 initialPublisher (exWorld 5000) scenarioDb
     = (Inr 3, startedState, startedWorld, startedDb)"
  by (simp add: startPublish_def validateGitHubAccess_def fetch_def serve_def exWorld_def ok_def
      getSession_def store_get_def scenarioDb_def scenarioQueue_def exSession_def exCapture_def
      corruptCapture_def getUnpublishedCaptures_def hasImageBlob_def initialPublisher_def
      savePublishState_def updateSession_def Let_def startedState_def startedWorld_def
      startedDb_def jobState_def exConfig_def)

lemma imagePath_s1_2: "imagePath ''s1'' 2 = ''sessions/s1/images/000002.jpg''"
  by code_simp

lemma imagePath_s1_3: "imagePath ''s1'' 3 = ''sessions/s1/images/000003.jpg''"
  by code_simp

lemma uploadImage_fresh:
  assumes "faults w = []" and "files w (imagePath k (sequenceNum c)) = None"
    and "tokenValid (account w)" and "repoFound (account w)" and "canPush (account w)"
    and "imageData c = None" and "imageBlob c = Some b" and "blob_size b > 0"
    and "blob_base64 b = Some bytes" and "bytes \<noteq> []"
  shows "uploadImage (Some cfg) c k w =
           (Inr (Some (downloadUrlOf (imagePath k (sequenceNum c))), False),
            w\<lparr>requests := requests w
                  @ [GetContents (imagePath k (sequenceNum c)),
                     PutContents (imagePath k (sequenceNum c)) bytes None
                       (''Upload image '' @ toString (sequenceNum c))],
              files := (files w)(imagePath k (sequenceNum c) \<mapsto> bytes)\<rparr>)"
  using assms
  by (simp add: uploadImage_def hasImageData_def hasImageBlob_def fileExists_def uploadFile_def
      fetch_def serve_def Let_def ok_def contentOf_def)

lemma uploadWithRetry_fresh:
  assumes "faults w = []" and "files w (imagePath (sid s) (sequenceNum (snd kc))) = None"
    and "tokenValid (account w)" and "repoFound (account w)" and "canPush (account w)"
    and "imageData (snd kc) = None" and "imageBlob (snd kc) = Some b" and "blob_size b > 0"
    and "blob_base64 b = Some bytes" and "bytes \<noteq> []"
    and "currentSession st = Some s" and "config st = Some cfg"
  shows "uploadWithRetry kc st w =
           (Inr (Some (downloadUrlOf (imagePath (sid s) (sequenceNum (snd kc)))), False), st,
            w\<lparr>requests := requests w
                  @ [GetContents (imagePath (sid s) (sequenceNum (snd kc))),
                     PutContents (imagePath (sid s) (sequenceNum (snd kc))) bytes None
                       (''Upload image '' @ toString (sequenceNum (snd kc)))],
              files := (files w)(imagePath (sid s) (sequenceNum (snd kc)) \<mapsto> bytes)\<rparr>)"
  using uploadImage_fresh [OF assms(1-10), of cfg] assms(11,12)
  by (simp add: uploadWithRetry_def uploadAttempts.simps tryUpload_def)

lemma tryUpload_corrupt_any:
  assumes "faults w = []" and "files w ''sessions/s1/images/000001.jpg'' = None"
    and "map_option sid (currentSession st) = Some ''s1''" and "config st \<noteq> None"
  shows "tryUpload (k, corruptCapture ''s1'' 1) st w =
     (Inl (Error (corruptMessage 1)),
      w\<lparr>requests := requests w @ [GetContents ''sessions/s1/images/000001.jpg'']\<rparr>)"
  using assms
  by (auto simp: tryUpload_def uploadImage_def corruptCapture_def
      exCapture_def hasImageData_def hasImageBlob_def imagePath_s1_1 [simplified] fileExists_def
      fetch_def serve_def Let_def toString_def digits.simps corruptMessage_def
      split: option.splits)

lemma uploadWithRetry_corrupt_any:
  assumes "faults w = []" and "files w ''sessions/s1/images/000001.jpg'' = None"
    and "map_option sid (currentSession st) = Some ''s1''" and "config st \<noteq> None"
  shows "uploadWithRetry (k, corruptCapture ''s1'' 1) st w =
     (Inl (Error (corruptMessage 1)), st,
      w\<lparr>requests := requests w @ [GetContents ''sessions/s1/images/000001.jpg'',
                                   GetContents ''sessions/s1/images/000001.jpg'',
                                   GetContents ''sessions/s1/images/000001.jpg'',
                                   GetContents ''sessions/s1/images/000001.jpg'',
                                   GetContents ''sessions/s1/images/000001.jpg''],
        delays := delays w @ [2000, 4000, 8000, 16000],
        debug := debug w @ [AttemptFailed 1 (corruptMessage 1), AttemptFailed 2 (corruptMessage 1),
                            AttemptFailed 3 (corruptMessage 1), AttemptFailed 4 (corruptMessage 1),
                            AttemptFailed 5 (corruptMessage 1)]\<rparr>)"
  using assms
  by (simp add: uploadWithRetry_def uploadAttempts.simps tryUpload_corrupt_any
      not_rateLimited_corrupt messageOf_def orElse_def delay_def)
     (simp add: corruptMessage_def)

lemmas uploadWithRetry_ex =
  uploadWithRetry_fresh [where s = "exSession ''s1'' Publishing" and cfg = exConfig
    and b = "\<lparr> blob_size = 3, blob_base64 = Some ''QUJD'' \<rparr>" and bytes = "''QUJD''"]

lemma scenario_drain:
  "drainLoop (startedState\<lparr>isProcessing := True\<rparr>) startedWorld startedDb
     = (drainedState, drainedWorld, drainedDb)"
proof -
  let ?e = "Failed (Error (corruptMessage 1)) (Some (1, corruptCapture ''s1'' 1))"
  let ?sa = "(jobState [(2, exCapture ''s1'' 2), (3, exCapture ''s1'' 3)])
               \<lparr>failed := 1, total := 3, events := [?e]\<rparr>"
  let ?wa = "startedWorld
      \<lparr>requests := requests startedWorld @ [GetContents ''sessions/s1/images/000001.jpg'',
                                   GetContents ''sessions/s1/images/000001.jpg'',
                                   GetContents ''sessions/s1/images/000001.jpg'',
                                   GetContents ''sessions/s1/images/000001.jpg'',
                                   GetContents ''sessions/s1/images/000001.jpg''],
        delays := [2000, 4000, 8000, 16000],
        debug := [AttemptFailed 1 (corruptMessage 1), AttemptFailed 2 (corruptMessage 1),
                  AttemptFailed 3 (corruptMessage 1), AttemptFailed 4 (corruptMessage 1),
                  AttemptFailed 5 (corruptMessage 1)]\<rparr>"
  let ?sb = "(jobState [(3, exCapture ''s1'' 3)])
               \<lparr>completed := 1, failed := 1, total := 3, events := [?e]\<rparr>"
  let ?wb = "?wa\<lparr>requests := requests ?wa
                  @ [GetContents ''sessions/s1/images/000002.jpg'',
                     PutContents ''sessions/s1/images/000002.jpg'' ''QUJD'' None ''Upload image 2''],
                files := [''sessions/s1/images/000002.jpg'' \<mapsto> ''QUJD''],
                delays := [2000, 4000, 8000, 16000, 500]\<rparr>"
  let ?db = "startedDb\<lparr> captures :=
                   [(1, corruptCapture ''s1'' 1),
                    (2, publishedCapture 2
                          ''https://raw.githubusercontent.com/sessions/s1/images/000002.jpg''),
                    (3, exCapture ''s1'' 3)],
                 publishState := [\<lparr> ps_sessionId = ''s1'', publishStarted = 1000,
                                    totalToUpload = 3, ps_completed = 1, ps_failed = 1,
                                    inProgress = True, completedAt = None \<rparr>] \<rparr>"
  have s0: "startedState\<lparr>isProcessing := True\<rparr> = jobState scenarioQueue"
    by (simp add: startedState_def jobState_def)
  have step1: "drainStep (jobState scenarioQueue) startedWorld startedDb = (True, ?sa, ?wa, startedDb)"
    by (simp add: drainStep_def reportProgress_def uploadFailed_def Let_def
        uploadWithRetry_corrupt_any startedWorld_def exWorld_def jobState_def scenarioQueue_def
        exSession_def)
  have step2: "drainStep ?sa ?wa startedDb = (True, ?sb, ?wb, ?db)"
    by (simp add: drainStep_def reportProgress_def uploadWithRetry_ex imagePath_s1_2
        startedWorld_def exWorld_def jobState_def exSession_def exCapture_def
        downloadUrlOf_def toString_def digits.simps
        markCapturePublished_def store_get_def startedDb_def scenarioDb_def scenarioQueue_def
        savePublishState_def startedAt_def delay_def publishedCapture_def corruptCapture_def
        Let_def)
  have step3: "drainStep ?sb ?wb ?db = (True, drainedState, drainedWorld, drainedDb)"
    by (simp add: drainStep_def reportProgress_def uploadWithRetry_ex imagePath_s1_3
        startedWorld_def exWorld_def jobState_def exSession_def exCapture_def
        downloadUrlOf_def toString_def digits.simps
        markCapturePublished_def store_get_def startedDb_def scenarioDb_def scenarioQueue_def
        savePublishState_def startedAt_def delay_def publishedCapture_def corruptCapture_def
        drainedState_def drainedWorld_def drainedDb_def Let_def)
  have q0: "queue (jobState scenarioQueue) \<noteq> [] \<and> isPublishing (jobState scenarioQueue)
            \<and> \<not> isPaused (jobState scenarioQueue)"
    by (simp add: jobState_def scenarioQueue_def)
  have qa: "queue ?sa \<noteq> [] \<and> isPublishing ?sa \<and> \<not> isPaused ?sa" by (simp add: jobState_def)
  have qb: "queue ?sb \<noteq> [] \<and> isPublishing ?sb \<and> \<not> isPaused ?sb" by (simp add: jobState_def)
  have qd: "queue drainedState = []" by (simp add: drainedState_def jobState_def)
  have "drainLoop (jobState scenarioQueue) startedWorld startedDb = drainLoop ?sa ?wa startedDb"
    using q0 step1 by (subst drainLoop.simps) (simp add: Let_def)
  also have "\<dots> = drainLoop ?sb ?wb ?db"
    using qa step2 by (subst drainLoop.simps) (simp add: Let_def)
  also have "\<dots> = drainLoop drainedState drainedWorld drainedDb"
    using qb step3 by (subst drainLoop.simps) (simp add: Let_def)
  also have "\<dots> = (drainedState, drainedWorld, drainedDb)"
    using qd by (subst drainLoop.simps) simp
  finally show ?thesis using s0 by simp
qed


lemma scenario_finish:
  "finishUploads exDocs (exSession ''s1'' Publishing) drainedState drainedWorld drainedDb
     = (None, drainedState, finishedWorld)"
  by (simp add: finishUploads_def reportProgress_def drainedState_def jobState_def exSession_def
      fileExists_def uploadFile_def fetch_def serve_def drainedWorld_def exWorld_def ok_def
      contentOf_def exDocs_def updateCoverageIndex_def getSessionCaptures_def drainedDb_def
      startedDb_def scenarioDb_def scenarioQueue_def exCapture_def corruptCapture_def
      publishedCapture_def finishedWorld_def Let_def)

theorem processQueue_finishes_witness:
  "startPublish ''s1'' exConfig False True True 1000 initialPublisher (exWorld 5000) scenarioDb
     = (Inr 3, startedState, startedWorld, startedDb)
   \<and> \<not> isProcessing startedState
   \<and> drainLoop (startedState\<lparr>isProcessing := True\<rparr>) startedWorld startedDb
       = (drainedState, drainedWorld, drainedDb)
   \<and> queue drainedState = [] \<and> isPublishing drainedState
   \<and> completed drainedState = 2 \<and> failed drainedState = 1 \<and> total drainedState = 3
   \<and> getSession ''s1'' (snd (snd (processQueue exDocs 9000 startedState startedWorld startedDb)))
       = Some ((exSession ''s1'' Publishing)\<lparr>status := PartiallyPublished\<rparr>)
   \<and> events (fst (processQueue exDocs 9000 startedState startedWorld startedDb))
       = [Failed (Error (corruptMessage 1)) (Some (1, corruptCapture ''s1'' 1)), Complete 2 1 3]"
proof -
  have h1: "\<not> isProcessing startedState" by (simp add: startedState_def)
  have h3: "queue drainedState = []" and h4: "isPublishing drainedState"
    and h5: "currentSession drainedState = Some (exSession ''s1'' Publishing)"
    by (simp_all add: drainedState_def jobState_def)
  have c: "completed drainedState = 2 \<and> failed drainedState = 1 \<and> total drainedState = 3
         \<and> onComplete drainedState
         \<and> events drainedState = [Failed (Error (corruptMessage 1)) (Some (1, corruptCapture ''s1'' 1))]"
    by (simp add: drainedState_def jobState_def)
  have k: "sid (exSession ''s1'' Publishing) = ''s1''" by (simp add: exSession_def)
  from processQueue_finishes [OF h1 scenario_drain h3 h4 h5 scenario_finish, of 9000] c k
  have "getSession ''s1'' (snd (snd (processQueue exDocs 9000 startedState startedWorld startedDb)))
       = Some ((exSession ''s1'' Publishing)\<lparr>status := PartiallyPublished\<rparr>)
   \<and> events (fst (processQueue exDocs 9000 startedState startedWorld startedDb))
       = [Failed (Error (corruptMessage 1)) (Some (1, corruptCapture ''s1'' 1)), Complete 2 1 3]"
    by auto
  with scenario_start h1 scenario_drain h3 h4 c show ?thesis by simp
qed

subsection \<open>Building the queue\<close>

text \<open>What \<open>startPublish\<close> puts in the queue when it succeeds.\<close>

lemma startPublish_queue:
  assumes "startPublish k cfg cbP cbC cbE now st w d = (Inr n, st', w', d')"
  shows "queue st' = filter (\<lambda>kc. hasImageBlob (snd kc)) (getUnpublishedCaptures k d)
       \<and> n = length (queue st') \<and> total st' = n
       \<and> sorted (map (\<lambda>kc. sequenceNum (snd kc)) (queue st'))
       \<and> set (queue st') = {kc \<in> set (captures d). sessionId (snd kc) = k
                               \<and> \<not> published (snd kc) \<and> hasImageBlob (snd kc)}"
proof -
  have s: "sorted (map (\<lambda>kc. sequenceNum (snd kc))
             (filter (\<lambda>kc. hasImageBlob (snd kc)) (getUnpublishedCaptures k d)))"
    by (simp add: getUnpublishedCaptures_def sorted_filter)
  from assms have q: "queue st' = filter (\<lambda>kc. hasImageBlob (snd kc)) (getUnpublishedCaptures k d)
       \<and> n = length (queue st') \<and> total st' = n"
    by (auto simp: startPublish_def Let_def split: if_splits prod.splits option.splits)
  with s show ?thesis by (auto simp: getUnpublishedCaptures_def)
qed

lemma startPublish_noPayload:
  "startPublish ''s1'' exConfig False True True 1000 initialPublisher (exWorld 5000) noPayloadDb =
     (Inr 0,
      \<lparr> isPublishing = True, isPaused = False, isProcessing = False,
        currentSession = Some (exSession ''s1'' Publishing), config = Some exConfig,
        queue = [], completed = 0, failed = 0, total = 0, pub_startTime = Some 1000,
        onProgress = False, onComplete = True, onError = True, events = [] \<rparr>,
      (exWorld 5000)\<lparr>requests := [GetUser, GetRepo, GetRateLimit]\<rparr>,
      noPayloadDb\<lparr> sessions := [exSession ''s1'' Publishing],
                    publishState := [\<lparr> ps_sessionId = ''s1'', publishStarted = 1000,
                                       totalToUpload = 0, ps_completed = 0, ps_failed = 0,
                                       inProgress = True, completedAt = None \<rparr>] \<rparr>)"
  by (simp add: startPublish_def validateGitHubAccess_def fetch_def serve_def exWorld_def ok_def
      getSession_def store_get_def noPayloadDb_def exSession_def exCapture_def
      getUnpublishedCaptures_def hasImageBlob_def initialPublisher_def savePublishState_def
      updateSession_def Let_def)

lemma startPublish_dataOnly:
  "startPublish ''s1'' exConfig False True True 1000 initialPublisher (exWorld 5000) dataOnlyDb =
     (Inr 0,
      \<lparr> isPublishing = True, isPaused = False, isProcessing = False,
        currentSession = Some (exSession ''s1'' Publishing), config = Some exConfig,
        queue = [], completed = 0, failed = 0, total = 0, pub_startTime = Some 1000,
        onProgress = False, onComplete = True, onError = True, events = [] \<rparr>,
      (exWorld 5000)\<lparr>requests := [GetUser, GetRepo, GetRateLimit]\<rparr>,
      dataOnlyDb\<lparr> sessions := [exSession ''s1'' Publishing],
                   publishState := [\<lparr> ps_sessionId = ''s1'', publishStarted = 1000,
                                      totalToUpload = 0, ps_completed = 0, ps_failed = 0,
                                      inProgress = True, completedAt = None \<rparr>] \<rparr>)"
  by (simp add: startPublish_def validateGitHubAccess_def fetch_def serve_def exWorld_def ok_def
      getSession_def store_get_def dataOnlyDb_def exSession_def exCapture_def
      getUnpublishedCaptures_def hasImageBlob_def initialPublisher_def savePublishState_def
      updateSession_def Let_def)

lemma runPublish_noPayload:
  "map_option status (getSession ''s1'' (snd (snd (snd
      (runPublish ''s1'' exConfig False True True 1000 exDocs 2000 initialPublisher
         (exWorld 5000) noPayloadDb))))) = Some Published
   \<and> events (fst (snd (runPublish ''s1'' exConfig False True True 1000 exDocs 2000
                        initialPublisher (exWorld 5000) noPayloadDb))) = [Complete 0 0 0]"
  by (simp add: runPublish_def startPublish_noPayload)
     (simp add: processQueue_def drainLoop.simps
      finishPublish_def finishUploads_def reportProgress_def fileExists_def uploadFile_def
      fetch_def serve_def exWorld_def ok_def contentOf_def exDocs_def updateCoverageIndex_def
      getSessionCaptures_def noPayloadDb_def exCapture_def exSession_def updateSession_def
      savePublishState_def getSession_def store_get_def startedAt_def Let_def)

text \<open>
  C3 at a session whose only unpublished capture has no image payload: \<open>startPublish\<close>
  tests the unpublished captures for emptiness before it filters them, so it does not
  fail; it returns \<open>total = 0\<close> with an empty queue, and the drain it starts finishes the
  job at once with status \<open>published\<close>. At a session whose capture carries its payload
  in \<open>imageData\<close> only, which \<open>uploadImage\<close> accepts, the filter on \<open>imageBlob\<close> leaves
  the capture out of the queue.
\<close>

theorem startPublish_empty_queue:
  "length (getUnpublishedCaptures ''s1'' noPayloadDb) = 1
   \<and> filter (\<lambda>kc. hasImageData (snd kc) \<or> hasImageBlob (snd kc))
        (getUnpublishedCaptures ''s1'' noPayloadDb) = []
   \<and> fst (startPublish ''s1'' exConfig False True True 1000 initialPublisher (exWorld 5000)
            noPayloadDb) = Inr 0
   \<and> queue (fst (snd (startPublish ''s1'' exConfig False True True 1000 initialPublisher
                         (exWorld 5000) noPayloadDb))) = []
   \<and> map_option status (getSession ''s1'' (snd (snd (snd
        (runPublish ''s1'' exConfig False True True 1000 exDocs 2000 initialPublisher
           (exWorld 5000) noPayloadDb))))) = Some Published
   \<and> filter (\<lambda>kc. hasImageData (snd kc)) (getUnpublishedCaptures ''s1'' dataOnlyDb)
       = [(1, (exCapture ''s1'' 1)\<lparr>imageBlob := None, imageData := Some ''QUJD''\<rparr>)]
   \<and> fst (startPublish ''s1'' exConfig False True True 1000 initialPublisher (exWorld 5000)
            dataOnlyDb) = Inr 0
   \<and> queue (fst (snd (startPublish ''s1'' exConfig False True True 1000 initialPublisher
                         (exWorld 5000) dataOnlyDb))) = []"
  by (simp add: startPublish_noPayload startPublish_dataOnly runPublish_noPayload)
     (simp add: getUnpublishedCaptures_def noPayloadDb_def dataOnlyDb_def exCapture_def
        hasImageData_def hasImageBlob_def)

theorem startPublish_empty_queue_witness:
  "fst (startPublish ''s1'' exConfig False True True 1000 initialPublisher (exWorld 5000)
          noPayloadDb) = Inr 0
   \<and> fst (startPublish ''s1'' exConfig False True True 1000 initialPublisher (exWorld 5000)
            noPayloadDb) \<noteq> Inl (Error ''No captures to publish'')"
  using startPublish_empty_queue by simp

end
